theory Spec2Isabelle
  imports Complex_Main
begin

section \<open>Data model of the booking register\<close>

text \<open>
  The register keeps its reservations in the SQLite table \<open>bookings\<close>. A calendar
  date is modelled by its proleptic Gregorian ordinal (Python's \<open>date.toordinal()\<close>):
  the \<open>sqlite3\<close> adapter stores a date as the text \<open>YYYY-MM-DD\<close>, whose comparison
  under \<open>date(...)\<close> and \<open>ORDER BY\<close> is the comparison of the ordinals. A
  timestamp is a number of seconds. A character of a text is one \<open>char\<close>.
\<close>

type_synonym date = int
type_synonym timestamp = nat

text \<open>
  One row of \<open>bookings\<close>. The columns declared \<open>NOT NULL\<close> (and the integer primary
  key) carry a value; every other column is nullable, \<open>None\<close> being \<open>NULL\<close>.
\<close>

record booking =
  row_id :: int
  guest_name :: string
  email :: "string option"
  phone :: "string option"
  source :: "string option"
  room :: "string option"
  status :: "string option"
  check_in :: date
  check_out :: date
  guests :: "int option"
  price :: "real option"
  notes_col :: "string option"
  external_source :: "string option"
  external_uid :: "string option"
  created_at :: timestamp
  updated_at :: timestamp

text \<open>
  The dictionary \<open>data\<close> handed to \<open>insert_booking\<close> and \<open>update_booking\<close>, one
  component per key the two functions read; \<open>None\<close> is a key that the dictionary does
  not have.
\<close>

record fields =
  d_guest_name :: "string option"
  d_email :: "string option"
  d_phone :: "string option"
  d_source :: "string option"
  d_room :: "string option"
  d_status :: "string option"
  d_check_in :: "date option"
  d_check_out :: "date option"
  d_guests :: "int option"
  d_price :: "real option"
  d_notes :: "string option"
  d_external_source :: "string option"
  d_external_uid :: "string option"

text \<open>A row of the table \<open>ical_endpoints\<close> (primary key \<open>room\<close>).\<close>

record endpoint =
  ep_room :: string
  ep_url :: string
  ep_updated_at :: timestamp

text \<open>
  The database file: the rows of \<open>bookings\<close> in rowid order, the \<open>AUTOINCREMENT\<close>
  counter that SQLite keeps in \<open>sqlite_sequence\<close>, and the rows of \<open>ical_endpoints\<close>.
\<close>

record store =
  bookings :: "booking list"
  seq :: int
  ical_endpoints :: "endpoint list"

datatype error = KeyError string | IntegrityError string | OperationalError string

section \<open>SQL expressions\<close>

text \<open>
  A comparison with \<open>NULL\<close> is \<open>NULL\<close>; \<open>AND\<close> and \<open>OR\<close> are three-valued; a
  \<open>WHERE\<close> clause keeps a row only when it evaluates to true.
\<close>

definition sql_eq :: "'a option \<Rightarrow> 'a option \<Rightarrow> bool option" where
  "sql_eq x y = (case x of None \<Rightarrow> None | Some a \<Rightarrow> (case y of None \<Rightarrow> None | Some b \<Rightarrow> Some (a = b)))"

definition sql_ne :: "'a option \<Rightarrow> 'a option \<Rightarrow> bool option" where
  "sql_ne x y = (case x of None \<Rightarrow> None | Some a \<Rightarrow> (case y of None \<Rightarrow> None | Some b \<Rightarrow> Some (a \<noteq> b)))"

definition sql_lt :: "date option \<Rightarrow> date option \<Rightarrow> bool option" where
  "sql_lt x y = (case x of None \<Rightarrow> None | Some a \<Rightarrow> (case y of None \<Rightarrow> None | Some b \<Rightarrow> Some (a < b)))"

definition sql_gt :: "date option \<Rightarrow> date option \<Rightarrow> bool option" where
  "sql_gt x y = (case x of None \<Rightarrow> None | Some a \<Rightarrow> (case y of None \<Rightarrow> None | Some b \<Rightarrow> Some (a > b)))"

fun sql_and :: "bool option \<Rightarrow> bool option \<Rightarrow> bool option" where
  "sql_and (Some False) y = Some False"
| "sql_and x (Some False) = Some False"
| "sql_and (Some True) (Some True) = Some True"
| "sql_and x y = None"

fun sql_or :: "bool option \<Rightarrow> bool option \<Rightarrow> bool option" where
  "sql_or (Some True) y = Some True"
| "sql_or x (Some True) = Some True"
| "sql_or (Some False) (Some False) = Some False"
| "sql_or x y = None"

definition sql_where :: "bool option \<Rightarrow> bool" where
  "sql_where v = (v = Some True)"

text \<open>
  SQLite's \<open>LIKE\<close> with its defaults: \<open>%\<close> in the pattern matches any run of
  characters, \<open>_\<close> matches any one character, every other character matches itself up
  to the case of the ASCII letters; there is no escape character (\<open>like_match\<close>).
  The engine reads the pattern and the text as C strings, that is up to their first
  character U+0000 (\<open>c_str\<close>), and it refuses a pattern of more than 50000 bytes in
  UTF-8, counted over the whole pattern; a character below U+0080 is one byte, and any
  other character of a text of this model is two (\<open>utf8_len\<close>).
\<close>

definition ascii_upper :: "char \<Rightarrow> char" where
  "ascii_upper c =
     (case map_of (zip ''abcdefghijklmnopqrstuvwxyz'' ''ABCDEFGHIJKLMNOPQRSTUVWXYZ'') c of
        None \<Rightarrow> c | Some u \<Rightarrow> u)"

fun like_match :: "string \<Rightarrow> string \<Rightarrow> bool" where
  "like_match [] t = (t = [])"
| "like_match (p # ps) t =
     (if p = CHR ''%'' then
        (like_match ps t \<or> (case t of [] \<Rightarrow> False | c # cs \<Rightarrow> like_match (p # ps) cs))
      else (case t of [] \<Rightarrow> False
            | c # cs \<Rightarrow> (p = CHR ''_'' \<or> ascii_upper p = ascii_upper c) \<and> like_match ps cs))"

definition c_str :: "string \<Rightarrow> string" where
  "c_str t = takeWhile (\<lambda>c. c \<noteq> CHR 0x00) t"

definition utf8_len :: "string \<Rightarrow> nat" where
  "utf8_len t = sum_list (map (\<lambda>c. if (of_char c :: nat) < 128 then 1 else 2) t)"

definition like_pattern_limit :: nat where
  "like_pattern_limit = 50000"

definition sql_like :: "string option \<Rightarrow> string \<Rightarrow> bool option" where
  "sql_like x pat =
     (case x of None \<Rightarrow> None | Some t \<Rightarrow> Some (like_match (c_str pat) (c_str t)))"

section \<open>DB layer\<close>

text \<open>
  \<open>AUTOINCREMENT\<close>: the new rowid is one more than the largest rowid the table ever
  held. \<open>sql_insert\<close> appends a row under that id and records it in the counter.
\<close>

definition next_rowid :: "store \<Rightarrow> int" where
  "next_rowid s = fold max (map row_id (bookings s)) (seq s) + 1"

definition sql_insert :: "store \<Rightarrow> booking \<Rightarrow> int \<times> store" where
  "sql_insert s r =
     (let i = next_rowid s
      in (i, s\<lparr>bookings := bookings s @ [r\<lparr>row_id := i\<rparr>], seq := i\<rparr>))"

text \<open>
  \<open>insert_booking\<close>: \<open>data["guest_name"]\<close>, \<open>data["check_in"]\<close> and
  \<open>data["check_out"]\<close> raise \<open>KeyError\<close> on a missing key, in this order; the other
  keys are read with \<open>data.get\<close>, with the defaults 1 for \<open>guests\<close> and 0.0 for
  \<open>price\<close>. \<open>now\<close> is the value of \<open>CURRENT_TIMESTAMP\<close>, the default of
  \<open>created_at\<close> and \<open>updated_at\<close>.
\<close>

definition insert_booking :: "store \<Rightarrow> timestamp \<Rightarrow> fields \<Rightarrow> error + (int \<times> store)" where
  "insert_booking s now data =
     (case d_guest_name data of
        None \<Rightarrow> Inl (KeyError ''guest_name'')
      | Some gn \<Rightarrow>
     (case d_check_in data of
        None \<Rightarrow> Inl (KeyError ''check_in'')
      | Some ci \<Rightarrow>
     (case d_check_out data of
        None \<Rightarrow> Inl (KeyError ''check_out'')
      | Some co \<Rightarrow>
        Inr (sql_insert s
          \<lparr>row_id = 0, guest_name = gn, email = d_email data, phone = d_phone data,
           source = d_source data, room = d_room data, status = d_status data,
           check_in = ci, check_out = co,
           guests = (case d_guests data of None \<Rightarrow> Some 1 | Some g \<Rightarrow> Some g),
           price = (case d_price data of None \<Rightarrow> Some 0 | Some p \<Rightarrow> Some p),
           notes_col = d_notes data,
           external_source = d_external_source data, external_uid = d_external_uid data,
           created_at = now, updated_at = now\<rparr>))))"

text \<open>
  \<open>update_booking\<close>: one \<open>UPDATE ... WHERE id = ?\<close> that sets the thirteen listed
  columns to \<open>data.get(k)\<close> and \<open>updated_at\<close> to \<open>CURRENT_TIMESTAMP\<close>. A row that
  matches and would receive \<open>NULL\<close> in a \<open>NOT NULL\<close> column makes the statement fail
  with \<open>sqlite3.IntegrityError\<close>, and the transaction is rolled back; with no matching
  row nothing is checked and nothing changes.
\<close>

definition update_booking :: "store \<Rightarrow> timestamp \<Rightarrow> int \<Rightarrow> fields \<Rightarrow> error + store" where
  "update_booking s now booking_id data =
     (if \<exists>b \<in> set (bookings s). row_id b = booking_id then
        (case d_guest_name data of
           None \<Rightarrow> Inl (IntegrityError ''bookings.guest_name'')
         | Some gn \<Rightarrow>
        (case d_check_in data of
           None \<Rightarrow> Inl (IntegrityError ''bookings.check_in'')
         | Some ci \<Rightarrow>
        (case d_check_out data of
           None \<Rightarrow> Inl (IntegrityError ''bookings.check_out'')
         | Some co \<Rightarrow>
           Inr (s\<lparr>bookings :=
             map (\<lambda>b. if row_id b = booking_id then
                    b\<lparr>guest_name := gn, email := d_email data, phone := d_phone data,
                      source := d_source data, room := d_room data, status := d_status data,
                      check_in := ci, check_out := co, guests := d_guests data,
                      price := d_price data, notes_col := d_notes data,
                      external_source := d_external_source data,
                      external_uid := d_external_uid data, updated_at := now\<rparr>
                  else b) (bookings s)\<rparr>))))
      else Inr s)"

definition delete_booking :: "store \<Rightarrow> int \<Rightarrow> store" where
  "delete_booking s booking_id = s\<lparr>bookings := filter (\<lambda>b. row_id b \<noteq> booking_id) (bookings s)\<rparr>"

text \<open>
  \<open>fetch_bookings\<close>: each filter is added to the query only when its argument is
  truthy (a date always is; a string is unless empty), and for \<open>status\<close> and \<open>room\<close>
  only when it is not the menu entry \<open>Tutte\<close>. The search string is placed between two
  \<open>%\<close> as it is. For a row, the engine tests the terms of the \<open>WHERE\<close> clause one
  after the other and leaves the row at the first that is not true
  (\<open>filters_where\<close>: the terms before the search); so the \<open>LIKE\<close> terms are
  evaluated only on a row that passes every other filter, and the first of them raises
  \<open>sqlite3.OperationalError\<close> there when the pattern is too long. The exception ends
  the query (pandas passes it on as \<open>DatabaseError\<close>). \<open>ORDER BY check_in ASC\<close> is
  modelled by the stable sort on \<open>check_in\<close> (SQL leaves the order of rows with equal
  \<open>check_in\<close> open).
\<close>

definition truthy :: "string option \<Rightarrow> bool" where
  "truthy x = (case x of None \<Rightarrow> False | Some t \<Rightarrow> t \<noteq> [])"

definition filters_where ::
  "date option \<Rightarrow> date option \<Rightarrow> string option \<Rightarrow> string option \<Rightarrow> booking \<Rightarrow> bool option" where
  "filters_where start end' status' room' b =
     sql_and (sql_and (sql_and
       (case start of None \<Rightarrow> Some True | Some d \<Rightarrow> sql_gt (Some (check_out b)) (Some d))
       (case end' of None \<Rightarrow> Some True | Some d \<Rightarrow> sql_lt (Some (check_in b)) (Some d)))
       (if truthy status' \<and> status' \<noteq> Some ''Tutte'' then sql_eq (status b) status' else Some True))
       (if truthy room' \<and> room' \<noteq> Some ''Tutte'' then sql_eq (room b) room' else Some True)"

definition search_where :: "string \<Rightarrow> booking \<Rightarrow> error + bool option" where
  "search_where like b =
     (if utf8_len like > like_pattern_limit
      then Inl (OperationalError ''LIKE or GLOB pattern too complex'')
      else Inr (sql_or (sql_or (sql_or
             (sql_like (Some (guest_name b)) like) (sql_like (email b) like))
             (sql_like (phone b) like)) (sql_like (notes_col b) like)))"

definition fetch_where ::
  "date option \<Rightarrow> date option \<Rightarrow> string option \<Rightarrow> string option \<Rightarrow> string option
     \<Rightarrow> booking \<Rightarrow> error + bool option" where
  "fetch_where start end' status' room' search b =
     (let filters = filters_where start end' status' room' b
      in if \<not> sql_where filters then Inr filters
         else (case search of
                 None \<Rightarrow> Inr filters
               | Some q \<Rightarrow>
                   if q = [] then Inr filters
                   else (let like = ''%'' @ q @ ''%'' in search_where like b)))"

text \<open>The scan of the table: the rows that the clause keeps, or the first exception.\<close>

fun select_where :: "(booking \<Rightarrow> error + bool option) \<Rightarrow> booking list \<Rightarrow> error + booking list" where
  "select_where w [] = Inr []"
| "select_where w (b # bs) =
     (case w b of
        Inl e \<Rightarrow> Inl e
      | Inr v \<Rightarrow>
          (case select_where w bs of
             Inl e \<Rightarrow> Inl e
           | Inr rows \<Rightarrow> Inr (if sql_where v then b # rows else rows)))"

definition fetch_bookings ::
  "store \<Rightarrow> date option \<Rightarrow> date option \<Rightarrow> string option \<Rightarrow> string option \<Rightarrow> string option
     \<Rightarrow> error + booking list" where
  "fetch_bookings s start end' status' room' search =
     (case select_where (fetch_where start end' status' room' search) (bookings s) of
        Inl e \<Rightarrow> Inl e
      | Inr rows \<Rightarrow> Inr (sort_key check_in rows))"

text \<open>
  \<open>has_overlap\<close>: the rows of the room that are not cancelled and whose stay
  intersects the candidate's, without the row \<open>exclude_id\<close> when one is given.
\<close>

definition overlap_where :: "date \<Rightarrow> date \<Rightarrow> string \<Rightarrow> int option \<Rightarrow> booking \<Rightarrow> bool option" where
  "overlap_where q_check_in q_check_out q_room exclude_id b =
     sql_and (sql_and (sql_and (sql_and
       (sql_eq (room b) (Some q_room))
       (sql_ne (status b) (Some ''Annullata'')))
       (sql_lt (Some (check_in b)) (Some q_check_out)))
       (sql_gt (Some (check_out b)) (Some q_check_in)))
       (case exclude_id of None \<Rightarrow> Some True | Some x \<Rightarrow> sql_ne (Some (row_id b)) (Some x))"

definition has_overlap ::
  "store \<Rightarrow> date \<Rightarrow> date \<Rightarrow> string \<Rightarrow> int option \<Rightarrow> bool \<times> booking list" where
  "has_overlap s q_check_in q_check_out q_room exclude_id =
     (let df = filter (\<lambda>b. sql_where (overlap_where q_check_in q_check_out q_room exclude_id b))
                 (bookings s)
      in (length df > 0, df))"

section \<open>iCal integration\<close>

definition upsert_ical_endpoint :: "store \<Rightarrow> timestamp \<Rightarrow> string \<Rightarrow> string \<Rightarrow> store" where
  "upsert_ical_endpoint s now q_room url =
     s\<lparr>ical_endpoints :=
        (if \<exists>e \<in> set (ical_endpoints s). ep_room e = q_room then
           map (\<lambda>e. if ep_room e = q_room then e\<lparr>ep_url := url, ep_updated_at := now\<rparr> else e)
             (ical_endpoints s)
         else ical_endpoints s @ [\<lparr>ep_room = q_room, ep_url = url, ep_updated_at = now\<rparr>])\<rparr>"

text \<open>
  \<open>get_ical_map\<close>: the dictionary room \<open>\<mapsto>\<close> url, in row order (\<open>room\<close> is the
  primary key, so no room occurs twice).
\<close>

definition get_ical_map :: "store \<Rightarrow> (string \<times> string) list" where
  "get_ical_map s = map (\<lambda>e. (ep_room e, ep_url e)) (ical_endpoints s)"

text \<open>
  \<open>parse_guest_from_summary\<close>: \<open>re.sub\<close> scans the summary from the left and, at each
  position, deletes the first alternative of
  \<open>Prenotazione|Reservation|Booking|Guest|Ospite|#\<close> that matches there, ignoring the
  case of the letters; \<open>strip\<close> then removes the white space at both ends. In
  \<open>re_sub\<close> the first argument counts the characters of the current match that are
  still to be deleted.
\<close>

definition boilerplate :: "string list" where
  "boilerplate = [''Prenotazione'', ''Reservation'', ''Booking'', ''Guest'', ''Ospite'', ''#'']"

fun ci_prefix :: "string \<Rightarrow> string \<Rightarrow> bool" where
  "ci_prefix [] t = True"
| "ci_prefix (p # ps) [] = False"
| "ci_prefix (p # ps) (c # cs) = (ascii_upper p = ascii_upper c \<and> ci_prefix ps cs)"

fun re_sub :: "nat \<Rightarrow> string \<Rightarrow> string" where
  "re_sub k [] = []"
| "re_sub (Suc k) (c # cs) = re_sub k cs"
| "re_sub 0 (c # cs) =
     (case find (\<lambda>tok. ci_prefix tok (c # cs)) boilerplate of
        Some tok \<Rightarrow> re_sub (length tok - 1) cs
      | None \<Rightarrow> c # re_sub 0 cs)"

definition is_space :: "char \<Rightarrow> bool" where
  "is_space c = (c \<in> set [CHR 0x09, CHR 0x0A, CHR 0x0B, CHR 0x0C, CHR 0x0D, CHR 0x1C, CHR 0x1D,
     CHR 0x1E, CHR 0x1F, CHR 0x20, CHR 0x85, CHR 0xA0])"

definition strip :: "string \<Rightarrow> string" where
  "strip t = rev (dropWhile is_space (rev (dropWhile is_space t)))"

definition parse_guest_from_summary :: "string \<Rightarrow> string" where
  "parse_guest_from_summary summary =
     (if summary = [] then ''Ospite Booking''
      else (let s = strip (re_sub 0 summary)
            in if s = [] then ''Ospite Booking'' else s))"

type_synonym entropy = nat

text \<open>
  What the importer reads of a parsed calendar event: \<open>uid\<close>, \<open>begin\<close>, \<open>end\<close> and
  \<open>name\<close>, each of which may be \<open>None\<close>. Of a point in time it uses the calendar
  date (\<open>.date()\<close>) and the text it formats to (inside the f-string).
\<close>

record arrow =
  date_of :: date
  str_of :: string

record event =
  ev_uid :: "string option"
  ev_begin :: "arrow option"
  ev_end :: "arrow option"
  ev_name :: "string option"

definition py_str :: "arrow option \<Rightarrow> string" where
  "py_str x = (case x of None \<Rightarrow> ''None'' | Some a \<Rightarrow> str_of a)"

definition event_uid :: "string \<Rightarrow> event \<Rightarrow> string" where
  "event_uid q_room ev =
     (let synthesized = q_room @ ''-'' @ py_str (ev_begin ev) @ ''-'' @ py_str (ev_end ev)
      in case ev_uid ev of
           None \<Rightarrow> synthesized
         | Some u \<Rightarrow> if u = [] then synthesized else u)"

text \<open>The ids selected by \<open>WHERE external_source=? AND external_uid=?\<close>.\<close>

definition select_external :: "store \<Rightarrow> string \<Rightarrow> string \<Rightarrow> int list" where
  "select_external s src uid =
     map row_id (filter (\<lambda>b. sql_where (sql_and (sql_eq (external_source b) (Some src))
                                             (sql_eq (external_uid b) (Some uid))))
                   (bookings s))"

text \<open>
  One turn of the loop over \<open>cal.events\<close>, on the pair of the counter \<open>created\<close> and
  the store: the two \<open>continue\<close> leave both as they are.
\<close>

definition import_event :: "string \<Rightarrow> timestamp \<Rightarrow> event \<Rightarrow> nat \<times> store \<Rightarrow> nat \<times> store" where
  "import_event q_room now ev acc =
     (let created = fst acc; s = snd acc;
          uid = event_uid q_room ev;
          start = map_option date_of (ev_begin ev);
          end' = map_option date_of (ev_end ev)
      in case start of
           None \<Rightarrow> (created, s)
         | Some st \<Rightarrow>
        (case end' of
           None \<Rightarrow> (created, s)
         | Some en \<Rightarrow>
            (let guest = parse_guest_from_summary (case ev_name ev of None \<Rightarrow> [] | Some n \<Rightarrow> n)
             in case select_external s ''booking_com_ical'' uid of
                  r # rs \<Rightarrow> (created, s)
                | [] \<Rightarrow>
                   (created + 1,
                    snd (sql_insert s
                      \<lparr>row_id = 0, guest_name = guest, email = None, phone = None,
                       source = Some ''Booking'', room = Some q_room,
                       status = Some ''Confermata'', check_in = st, check_out = en,
                       guests = Some 2, price = Some 0, notes_col = Some ''Import iCal'',
                       external_source = Some ''booking_com_ical'', external_uid = Some uid,
                       created_at = now, updated_at = now\<rparr>)))))"

text \<open>What the pages show with \<open>st.error\<close>, \<open>st.warning\<close> and \<open>st.success\<close>.\<close>

datatype ui_msg =
    Err_guest_required
  | Err_check_out
  | Warn_overlap "booking list"
  | Saved int
  | Updated
  | Err_download string string
  | Err_parsing string string
  | Sync_done nat

text \<open>
  \<open>import_ics_for_room\<close>. The download (\<open>requests.get\<close> followed by
  \<open>raise_for_status\<close>) and the parser (\<open>Calendar\<close>) are given as
  \<open>requests_get\<close> and \<open>calendar\<close>: \<open>Inl\<close> is the exception they raise,
  \<open>Inr\<close> the response text and the events in the order of the iteration. Each is
  called once. The parser is not a function of the text alone: it draws the \<open>uid\<close>
  of an event that has none in the feed from a random generator, so it also takes
  \<open>rnd\<close>, the state of that generator at this parse. The result is the messages
  shown, the count returned and the store.
\<close>

definition import_ics_for_room ::
  "(string \<Rightarrow> string + string) \<Rightarrow> (entropy \<Rightarrow> string \<Rightarrow> string + event list) \<Rightarrow> entropy
     \<Rightarrow> store \<Rightarrow> timestamp \<Rightarrow> string \<Rightarrow> string \<Rightarrow> ui_msg list \<times> nat \<times> store" where
  "import_ics_for_room requests_get calendar rnd s now q_room url =
     (case requests_get url of
        Inl e \<Rightarrow> ([Err_download q_room e], 0, s)
      | Inr resp_text \<Rightarrow>
     (case calendar rnd resp_text of
        Inl e \<Rightarrow> ([Err_parsing q_room e], 0, s)
      | Inr events \<Rightarrow>
          (let r = fold (import_event q_room now) events (0, s)
           in ([], fst r, snd r))))"

text \<open>
  The handler of the button that synchronises every room of \<open>get_ical_map\<close>;
  \<open>rnds r\<close> is the state of the random generator when the feed of room \<open>r\<close> is
  parsed.
\<close>

fun sync_rooms ::
  "(string \<Rightarrow> string + string) \<Rightarrow> (entropy \<Rightarrow> string \<Rightarrow> string + event list)
     \<Rightarrow> (string \<Rightarrow> entropy) \<Rightarrow> timestamp
     \<Rightarrow> (string \<times> string) list \<Rightarrow> ui_msg list \<times> nat \<times> store \<Rightarrow> ui_msg list \<times> nat \<times> store" where
  "sync_rooms requests_get calendar rnds now [] acc = acc"
| "sync_rooms requests_get calendar rnds now ((r, u) # rest) (msgs, count_total, s) =
     (case import_ics_for_room requests_get calendar (rnds r) s now r u of
        (m, c, s') \<Rightarrow>
          sync_rooms requests_get calendar rnds now rest (msgs @ m, count_total + c, s'))"

definition sync_all ::
  "(string \<Rightarrow> string + string) \<Rightarrow> (entropy \<Rightarrow> string \<Rightarrow> string + event list)
     \<Rightarrow> (string \<Rightarrow> entropy) \<Rightarrow> store \<Rightarrow> timestamp \<Rightarrow> ui_msg list \<times> nat \<times> store" where
  "sync_all requests_get calendar rnds s now =
     (case sync_rooms requests_get calendar rnds now (get_ical_map s) ([], 0, s) of
        (msgs, count_total, s') \<Rightarrow> (msgs @ [Sync_done count_total], count_total, s'))"

section \<open>UI helpers\<close>

text \<open>
  The occupancy matrix is a data frame: its index (one date per row), its columns (the
  rooms, as given) and one list of cells per row. \<open>date_range a b\<close> is every day from
  \<open>a\<close> to \<open>b\<close>, none when \<open>b < a\<close>.
\<close>

record matrix =
  mat_index :: "date list"
  mat_columns :: "string list"
  mat_cells :: "int list list"

definition date_range :: "date \<Rightarrow> date \<Rightarrow> date list" where
  "date_range a b = [a..b]"

text \<open>
  \<open>mat.loc[rng, col] = v\<close>: pandas looks every label of the list \<open>rng\<close> up in the
  index and raises \<open>KeyError\<close> when one is absent; otherwise the cells of column
  \<open>col\<close> in the rows labelled by \<open>rng\<close> become \<open>v\<close>.
\<close>

definition loc_set :: "matrix \<Rightarrow> date list \<Rightarrow> string \<Rightarrow> int \<Rightarrow> error + matrix" where
  "loc_set mat rng col v =
     (if \<exists>d \<in> set rng. d \<notin> set (mat_index mat) then Inl (KeyError ''not in index'')
      else Inr (mat\<lparr>mat_cells :=
        map (\<lambda>(d, cells). if d \<in> set rng
                            then map (\<lambda>(c, x). if c = col then v else x) (zip (mat_columns mat) cells)
                            else cells)
          (zip (mat_index mat) (mat_cells mat))\<rparr>))"

text \<open>\<open>mat.loc[d, col]\<close>, for reading a cell of the result.\<close>

definition loc_get :: "matrix \<Rightarrow> date \<Rightarrow> string \<Rightarrow> int option" where
  "loc_get mat d col =
     (case map_of (zip (mat_index mat) (mat_cells mat)) d of
        None \<Rightarrow> None
      | Some cells \<Rightarrow> map_of (zip (mat_columns mat) cells) col)"

text \<open>
  The loop of \<open>occupancy_matrix\<close> over the fetched rows: the nights \<open>check_in\<close> to
  \<open>check_out - 1\<close> of a row are marked when its room is a column; an exception ends
  the function.
\<close>

fun mark_bookings :: "booking list \<Rightarrow> matrix \<Rightarrow> error + matrix" where
  "mark_bookings [] mat = Inr mat"
| "mark_bookings (b # bs) mat =
     (let rng = date_range (check_in b) (check_out b - 1)
      in case room b of
           None \<Rightarrow> mark_bookings bs mat
         | Some r \<Rightarrow>
             if r \<in> set (mat_columns mat) then
               (case loc_set mat rng r 1 of
                  Inl e \<Rightarrow> Inl e
                | Inr mat' \<Rightarrow> mark_bookings bs mat')
             else mark_bookings bs mat)"

definition occupancy_matrix :: "store \<Rightarrow> date \<Rightarrow> date \<Rightarrow> string list \<Rightarrow> error + matrix" where
  "occupancy_matrix s period_start period_end rooms =
     (case fetch_bookings s (Some period_start) (Some period_end) None None None of
        Inl e \<Rightarrow> Inl e
      | Inr df \<Rightarrow>
          (let idx = date_range period_start period_end;
               mat = \<lparr>mat_index = idx, mat_columns = rooms,
                      mat_cells = map (\<lambda>d. map (\<lambda>r. 0) rooms) idx\<rparr>
           in mark_bookings df mat))"

section \<open>The forms\<close>

text \<open>
  The values of the widgets of \<open>new_booking_form\<close> and \<open>edit_form\<close> when the form
  is submitted, and the dictionary that both handlers build from them.
\<close>

record form =
  f_guest_name :: string
  f_email :: string
  f_phone :: string
  f_source :: string
  f_room :: string
  f_status :: string
  f_check_in :: date
  f_check_out :: date
  f_guests :: int
  f_price :: real
  f_notes :: string

definition form_data :: "form \<Rightarrow> fields" where
  "form_data f =
     \<lparr>d_guest_name = Some (f_guest_name f), d_email = Some (f_email f),
      d_phone = Some (f_phone f), d_source = Some (f_source f), d_room = Some (f_room f),
      d_status = Some (f_status f), d_check_in = Some (f_check_in f),
      d_check_out = Some (f_check_out f), d_guests = Some (f_guests f),
      d_price = Some (f_price f), d_notes = Some (f_notes f),
      d_external_source = None, d_external_uid = None\<rparr>"

text \<open>The warning shown when \<open>has_overlap\<close> reports a conflict and the status is not cancelled.\<close>

definition overlap_warning :: "bool \<times> booking list \<Rightarrow> string \<Rightarrow> ui_msg list" where
  "overlap_warning r q_status =
     (if fst r \<and> q_status \<noteq> ''Annullata'' then [Warn_overlap (snd r)] else [])"

definition new_booking_submit :: "store \<Rightarrow> timestamp \<Rightarrow> form \<Rightarrow> error + (ui_msg list \<times> store)" where
  "new_booking_submit s now f =
     (if f_guest_name f = [] then Inr ([Err_guest_required], s)
      else if f_check_out f \<le> f_check_in f then Inr ([Err_check_out], s)
      else (let w = overlap_warning
                      (has_overlap s (f_check_in f) (f_check_out f) (f_room f) None) (f_status f)
            in case insert_booking s now (form_data f) of
                 Inl e \<Rightarrow> Inl e
               | Inr (booking_id, s') \<Rightarrow> Inr (w @ [Saved booking_id], s')))"

definition edit_form_update ::
  "store \<Rightarrow> timestamp \<Rightarrow> int \<Rightarrow> form \<Rightarrow> error + (ui_msg list \<times> store)" where
  "edit_form_update s now sel_id f =
     (if f_guest_name f = [] then Inr ([Err_guest_required], s)
      else if f_check_out f \<le> f_check_in f then Inr ([Err_check_out], s)
      else (let w = overlap_warning
                      (has_overlap s (f_check_in f) (f_check_out f) (f_room f) (Some sel_id))
                      (f_status f)
            in case update_booking s now sel_id (form_data f) of
                 Inl e \<Rightarrow> Inl e
               | Inr s' \<Rightarrow> Inr (w @ [Updated], s')))"

section \<open>Predicates of the statements\<close>

text \<open>
  \<open>imported s uid\<close>: some row of the store carries the provenance pair of the feed
  provider and \<open>uid\<close>. \<open>has_dates ev\<close>: the event has both a start and an end.
  \<open>sync_fails\<close>: the download or the parsing of the feed at the address raises.
  \<open>status_set s\<close>: no row of the store has the status \<open>NULL\<close>.
\<close>

definition status_set :: "store \<Rightarrow> bool" where
  "status_set s \<longleftrightarrow> (\<forall>b \<in> set (bookings s). status b \<noteq> None)"

definition imported :: "store \<Rightarrow> string \<Rightarrow> bool" where
  "imported s uid \<longleftrightarrow>
     (\<exists>b \<in> set (bookings s).
        external_source b = Some ''booking_com_ical'' \<and> external_uid b = Some uid)"

definition has_dates :: "event \<Rightarrow> bool" where
  "has_dates ev \<longleftrightarrow> ev_begin ev \<noteq> None \<and> ev_end ev \<noteq> None"

definition sync_fails ::
  "(string \<Rightarrow> string + string) \<Rightarrow> (entropy \<Rightarrow> string \<Rightarrow> string + event list) \<Rightarrow> entropy
     \<Rightarrow> string \<Rightarrow> bool" where
  "sync_fails requests_get calendar rnd url \<longleftrightarrow>
     (case requests_get url of
        Inl e \<Rightarrow> True
      | Inr t \<Rightarrow> (case calendar rnd t of Inl e \<Rightarrow> True | Inr evs \<Rightarrow> False))"

text \<open>The row that the importer inserts for an event, under the id \<open>i\<close>.\<close>

definition imported_row :: "string \<Rightarrow> timestamp \<Rightarrow> event \<Rightarrow> int \<Rightarrow> booking" where
  "imported_row q_room now ev i =
     \<lparr>row_id = i,
      guest_name = parse_guest_from_summary (case ev_name ev of None \<Rightarrow> [] | Some n \<Rightarrow> n),
      email = None, phone = None, source = Some ''Booking'', room = Some q_room,
      status = Some ''Confermata'', check_in = date_of (the (ev_begin ev)),
      check_out = date_of (the (ev_end ev)), guests = Some 2, price = Some 0,
      notes_col = Some ''Import iCal'', external_source = Some ''booking_com_ical'',
      external_uid = Some (event_uid q_room ev), created_at = now, updated_at = now\<rparr>"

text \<open>
  \<open>like_free q\<close>: the text has no metacharacter of \<open>LIKE\<close>. \<open>contains_ci q t\<close>:
  the text \<open>q\<close> occurs in \<open>t\<close> as a substring, up to the case of the ASCII letters
  (\<open>ci_prefix q t\<close>: at the start of \<open>t\<close>). \<open>text_matches q b\<close>: it occurs so in the
  guest name, the email, the phone or the notes of the row.
\<close>

definition like_free :: "string \<Rightarrow> bool" where
  "like_free q \<longleftrightarrow> CHR ''%'' \<notin> set q \<and> CHR ''_'' \<notin> set q"

fun contains_ci :: "string \<Rightarrow> string \<Rightarrow> bool" where
  "contains_ci q [] = ci_prefix q []"
| "contains_ci q (c # cs) = (ci_prefix q (c # cs) \<or> contains_ci q cs)"

definition text_matches :: "string \<Rightarrow> booking \<Rightarrow> bool" where
  "text_matches q b \<longleftrightarrow>
     contains_ci q (guest_name b) \<or> (\<exists>e. email b = Some e \<and> contains_ci q e) \<or>
     (\<exists>p. phone b = Some p \<and> contains_ci q p) \<or>
     (\<exists>n. notes_col b = Some n \<and> contains_ci q n)"

text \<open>
  \<open>text_matches_c_str q b\<close>: the same, in each field read up to its first character
  U+0000. \<open>plain_search q\<close>: the search string has no metacharacter of \<open>LIKE\<close> and
  no character U+0000, and the pattern made of it is within the limit.
\<close>

definition text_matches_c_str :: "string \<Rightarrow> booking \<Rightarrow> bool" where
  "text_matches_c_str q b \<longleftrightarrow>
     contains_ci q (c_str (guest_name b)) \<or> (\<exists>e. email b = Some e \<and> contains_ci q (c_str e)) \<or>
     (\<exists>p. phone b = Some p \<and> contains_ci q (c_str p)) \<or>
     (\<exists>n. notes_col b = Some n \<and> contains_ci q (c_str n))"

definition plain_search :: "string \<Rightarrow> bool" where
  "plain_search q \<longleftrightarrow>
     like_free q \<and> CHR 0x00 \<notin> set q \<and> utf8_len (''%'' @ q @ ''%'') \<le> like_pattern_limit"

text \<open>
  The upper case of a character of Latin-1, as Python's \<open>str.upper\<close> gives it where
  that is again one character of Latin-1: the ASCII letters, and the letters from
  U+00E0 to U+00FE except the division sign U+00F7.
\<close>

definition latin1_upper :: "char \<Rightarrow> char" where
  "latin1_upper c =
     (let n = (of_char c :: nat)
      in if (97 \<le> n \<and> n \<le> 122) \<or> (224 \<le> n \<and> n \<le> 254 \<and> n \<noteq> 247)
         then char_of (n - 32) else c)"

text \<open>
  \<open>well_formed mat\<close>: the matrix has one list of cells per label of the index and
  one cell per column in each. \<open>nights b\<close>: the nights that \<open>occupancy_matrix\<close>
  marks for a row, \<open>check_in\<close> to \<open>check_out - 1\<close>.
\<close>

definition well_formed :: "matrix \<Rightarrow> bool" where
  "well_formed mat \<longleftrightarrow>
     length (mat_cells mat) = length (mat_index mat) \<and>
     (\<forall>cells \<in> set (mat_cells mat). length cells = length (mat_columns mat))"

definition nights :: "booking \<Rightarrow> date list" where
  "nights b = date_range (check_in b) (check_out b - 1)"

section \<open>Example data\<close>

definition empty_store :: store where
  "empty_store = \<lparr>bookings = [], seq = 0, ical_endpoints = []\<rparr>"

definition no_fields :: fields where
  "no_fields = \<lparr>d_guest_name = None, d_email = None, d_phone = None, d_source = None,
     d_room = None, d_status = None, d_check_in = None, d_check_out = None, d_guests = None,
     d_price = None, d_notes = None, d_external_source = None, d_external_uid = None\<rparr>"

text \<open>
  A stay from 2024-06-01 (ordinal 739038) to 2024-06-05 (739042) in room \<open>R1\<close>,
  confirmed; and the same stay entered through \<open>insert_booking\<close> with a dictionary that
  has no key \<open>status\<close>.
\<close>

definition row_confirmed :: booking where
  "row_confirmed = \<lparr>row_id = 1, guest_name = ''Ann'', email = None, phone = None,
     source = Some ''Diretta'', room = Some ''R1'', status = Some ''Confermata'',
     check_in = 739038, check_out = 739042, guests = Some 2, price = Some 0,
     notes_col = None, external_source = None, external_uid = None,
     created_at = 0, updated_at = 0\<rparr>"

definition store_confirmed :: store where
  "store_confirmed = \<lparr>bookings = [row_confirmed], seq = 1, ical_endpoints = []\<rparr>"

definition data_without_status :: fields where
  "data_without_status = no_fields\<lparr>d_guest_name := Some ''Ann'', d_room := Some ''R1'',
     d_check_in := Some 739038, d_check_out := Some 739042\<rparr>"

definition row_without_status :: booking where
  "row_without_status = \<lparr>row_id = 1, guest_name = ''Ann'', email = None, phone = None,
     source = None, room = Some ''R1'', status = None, check_in = 739038, check_out = 739042,
     guests = Some 1, price = Some 0, notes_col = None, external_source = None,
     external_uid = None, created_at = 0, updated_at = 0\<rparr>"

definition store_without_status :: store where
  "store_without_status = \<lparr>bookings = [row_without_status], seq = 1, ical_endpoints = []\<rparr>"

text \<open>
  A feed at \<open>url_r1\<close> with two events: one with an identifier, both dates and a
  summary, and one with an identifier and no dates. A feed at \<open>url_no_uid\<close> with
  one event that has both dates and no identifier in the feed: the parser gives it one
  drawn from its random generator, \<open>uid_gen rnd\<close>. Every other address cannot be
  reached, and every other text does not parse. \<open>event_empty_uid\<close> is an event
  whose identifier is the empty text.
\<close>

definition url_r1 :: string where
  "url_r1 = ''https://example.org/r1.ics''"

definition text_r1 :: string where
  "text_r1 = ''BEGIN:VCALENDAR ... END:VCALENDAR''"

definition url_no_uid :: string where
  "url_no_uid = ''https://example.org/no-uid.ics''"

definition text_no_uid :: string where
  "text_no_uid =
     ''BEGIN:VCALENDAR BEGIN:VEVENT DTSTART:20240601 DTEND:20240605 END:VEVENT END:VCALENDAR''"

definition day_0601 :: arrow where
  "day_0601 = \<lparr>date_of = 739038, str_of = ''2024-06-01T00:00:00+00:00''\<rparr>"

definition day_0605 :: arrow where
  "day_0605 = \<lparr>date_of = 739042, str_of = ''2024-06-05T00:00:00+00:00''\<rparr>"

definition event_with_uid :: event where
  "event_with_uid = \<lparr>ev_uid = Some ''abc@booking.com'', ev_begin = Some day_0601,
     ev_end = Some day_0605, ev_name = Some ''CLOSED - Not available''\<rparr>"

definition event_without_start :: event where
  "event_without_start = \<lparr>ev_uid = Some ''def@booking.com'', ev_begin = None,
     ev_end = None, ev_name = None\<rparr>"

definition event_empty_uid :: event where
  "event_empty_uid = \<lparr>ev_uid = Some [], ev_begin = Some day_0601,
     ev_end = Some day_0605, ev_name = None\<rparr>"

definition uid_gen :: "entropy \<Rightarrow> string" where
  "uid_gen rnd = replicate rnd CHR ''f'' @ ''@ics.py''"

definition event_fresh_uid :: "entropy \<Rightarrow> event" where
  "event_fresh_uid rnd = \<lparr>ev_uid = Some (uid_gen rnd), ev_begin = Some day_0601,
     ev_end = Some day_0605, ev_name = None\<rparr>"

definition requests_get_ex :: "string \<Rightarrow> string + string" where
  "requests_get_ex url =
     (if url = url_r1 then Inr text_r1
      else if url = url_no_uid then Inr text_no_uid
      else Inl ''ConnectionError'')"

definition calendar_ex :: "entropy \<Rightarrow> string \<Rightarrow> string + event list" where
  "calendar_ex rnd t =
     (if t = text_r1 then Inr [event_with_uid, event_without_start]
      else if t = text_no_uid then Inr [event_fresh_uid rnd]
      else Inl ''ParseError'')"

text \<open>
  Two endpoints: room \<open>R2\<close>, whose address cannot be reached, and room \<open>R1\<close> with the
  feed above.
\<close>

definition store_two_endpoints :: store where
  "store_two_endpoints = \<lparr>bookings = [], seq = 0, ical_endpoints =
     [\<lparr>ep_room = ''R2'', ep_url = ''https://example.org/r2.ics'', ep_updated_at = 0\<rparr>,
      \<lparr>ep_room = ''R1'', ep_url = url_r1, ep_updated_at = 0\<rparr>]\<rparr>"

text \<open>
  The form filled in for Bob: room \<open>R1\<close>, 2024-06-04 (739041) to 2024-06-06 (739043),
  confirmed; the dictionary of that form without the key \<open>guest_name\<close>; and the store
  after the first import of the example feed.
\<close>

definition form_bob :: form where
  "form_bob = \<lparr>f_guest_name = ''Bob'', f_email = '''', f_phone = '''', f_source = ''Diretta'',
     f_room = ''R1'', f_status = ''Confermata'', f_check_in = 739041, f_check_out = 739043,
     f_guests = 2, f_price = 0, f_notes = ''''\<rparr>"

definition data_without_name :: fields where
  "data_without_name = (form_data form_bob)\<lparr>d_guest_name := None\<rparr>"

definition store_imported :: store where
  "store_imported = \<lparr>bookings = [imported_row ''R1'' 10 event_with_uid 1], seq = 1,
     ical_endpoints = []\<rparr>"

text \<open>
  Two bookings, entered in this order: Rossi in \<open>R1\<close> from 2024-06-05 to 2024-06-07,
  and Anna in \<open>R2\<close> from 2024-06-01 to 2024-06-03.
\<close>

definition row_mario :: booking where
  "row_mario = \<lparr>row_id = 1, guest_name = ''Rossi'', email = Some ''Mario.Rossi@example.com'',
     phone = None, source = Some ''Diretta'', room = Some ''R1'', status = Some ''Confermata'',
     check_in = 739042, check_out = 739044, guests = Some 2, price = Some 0,
     notes_col = None, external_source = None, external_uid = None,
     created_at = 0, updated_at = 0\<rparr>"

definition row_anna :: booking where
  "row_anna = \<lparr>row_id = 2, guest_name = ''Anna'', email = Some ''anna@example.com'',
     phone = None, source = Some ''Diretta'', room = Some ''R2'', status = Some ''In attesa'',
     check_in = 739038, check_out = 739040, guests = Some 1, price = Some 0,
     notes_col = None, external_source = None, external_uid = None,
     created_at = 0, updated_at = 0\<rparr>"

definition store_search :: store where
  "store_search = \<lparr>bookings = [row_mario, row_anna], seq = 2, ical_endpoints = []\<rparr>"

text \<open>
  A booking whose guest name starts with the capital letter U+00C9; a booking whose
  guest name has a character U+0000 before \<open>bob\<close>; and a search string of 49999
  letters, whose pattern has 50001 bytes.
\<close>

definition row_accent :: booking where
  "row_accent = row_anna\<lparr>row_id := 1,
     guest_name := [CHR 0xC9, CHR ''m'', CHR ''i'', CHR ''l'', CHR ''e'']\<rparr>"

definition store_accent :: store where
  "store_accent = \<lparr>bookings = [row_accent], seq = 1, ical_endpoints = []\<rparr>"

definition row_nul :: booking where
  "row_nul = row_anna\<lparr>row_id := 1,
     guest_name := [CHR ''a'', CHR 0x00, CHR ''b'', CHR ''o'', CHR ''b'']\<rparr>"

definition store_nul :: store where
  "store_nul = \<lparr>bookings = [row_nul], seq = 1, ical_endpoints = []\<rparr>"

definition long_search :: string where
  "long_search = replicate 49999 CHR ''a''"

text \<open>
  A stay from 2024-06-03 (739040) to 2024-06-05 in \<open>R1\<close>; a stay from 2024-06-01 to
  2024-06-03; and a stay from 2024-05-31 (739037) to 2024-06-02 (739039).
\<close>

definition row_last_night :: booking where
  "row_last_night = \<lparr>row_id = 1, guest_name = ''Ann'', email = None, phone = None,
     source = Some ''Diretta'', room = Some ''R1'', status = Some ''Confermata'',
     check_in = 739040, check_out = 739042, guests = Some 2, price = Some 0,
     notes_col = None, external_source = None, external_uid = None,
     created_at = 0, updated_at = 0\<rparr>"

definition store_last_night :: store where
  "store_last_night = \<lparr>bookings = [row_last_night], seq = 1, ical_endpoints = []\<rparr>"

definition store_two_nights :: store where
  "store_two_nights =
     \<lparr>bookings = [row_last_night\<lparr>check_in := 739038, check_out := 739040\<rparr>], seq = 1,
      ical_endpoints = []\<rparr>"

definition store_straddling :: store where
  "store_straddling =
     \<lparr>bookings = [row_last_night\<lparr>check_in := 739037, check_out := 739039\<rparr>], seq = 1,
      ical_endpoints = []\<rparr>"

section \<open>Lemmas on SQL expressions\<close>

lemma sql_where_and [simp]: "sql_where (sql_and x y) \<longleftrightarrow> sql_where x \<and> sql_where y"
  by (cases "(x, y)" rule: sql_and.cases) (auto simp: sql_where_def)

lemma sql_where_or [simp]: "sql_where (sql_or x y) \<longleftrightarrow> sql_where x \<or> sql_where y"
  by (cases "(x, y)" rule: sql_or.cases) (auto simp: sql_where_def)

lemma sql_where_eq [simp]: "sql_where (sql_eq x y) \<longleftrightarrow> (\<exists>a. x = Some a \<and> y = Some a)"
  by (auto simp: sql_where_def sql_eq_def split: option.splits)

lemma sql_where_ne [simp]:
  "sql_where (sql_ne x y) \<longleftrightarrow> (\<exists>a b. x = Some a \<and> y = Some b \<and> a \<noteq> b)"
  by (auto simp: sql_where_def sql_ne_def split: option.splits)

lemma sql_where_lt [simp]: "sql_where (sql_lt (Some a) (Some b)) \<longleftrightarrow> a < b"
  by (simp add: sql_where_def sql_lt_def)

lemma sql_where_gt [simp]: "sql_where (sql_gt (Some a) (Some b)) \<longleftrightarrow> a > b"
  by (simp add: sql_where_def sql_gt_def)

lemma sql_where_True [simp]: "sql_where (Some True)"
  by (simp add: sql_where_def)

lemma sql_where_like [simp]:
  "sql_where (sql_like x pat) \<longleftrightarrow> (\<exists>t. x = Some t \<and> like_match (c_str pat) (c_str t))"
  by (auto simp: sql_where_def sql_like_def split: option.splits)

lemma sql_where_None [simp]: "\<not> sql_where None"
  by (simp add: sql_where_def)

section \<open>Overlap detection\<close>

lemma sql_where_overlap:
  "sql_where (overlap_where ci co rm ex b) \<longleftrightarrow>
     room b = Some rm \<and> (\<exists>st. status b = Some st \<and> st \<noteq> ''Annullata'') \<and>
     check_in b < co \<and> check_out b > ci \<and> (\<forall>x. ex = Some x \<longrightarrow> row_id b \<noteq> x)"
  by (cases ex) (auto simp: overlap_where_def)

lemma has_overlap_rows:
  "has_overlap s q_check_in q_check_out q_room exclude_id =
     (\<exists>b \<in> set (bookings s).
        sql_where (overlap_where q_check_in q_check_out q_room exclude_id b),
      filter (\<lambda>b. sql_where (overlap_where q_check_in q_check_out q_room exclude_id b))
        (bookings s))"
  by (auto simp: has_overlap_def Let_def filter_empty_conv)

text \<open>
  Every writer of the program stores a status: the two forms pass the entry of their
  status menu, and the importer writes \<open>Confermata\<close>. So a store that starts empty
  and is changed by the forms, by deletion and by the import has no row with the
  status \<open>NULL\<close>.
\<close>

lemma status_set_empty: "status_set empty_store"
  by (simp add: status_set_def empty_store_def)

lemma status_set_new_booking:
  "status_set s \<Longrightarrow> new_booking_submit s now f = Inr (msgs, s') \<Longrightarrow> status_set s'"
  by (auto simp: new_booking_submit_def insert_booking_def form_data_def sql_insert_def
      status_set_def Let_def split: if_splits)

lemma status_set_edit:
  "status_set s \<Longrightarrow> edit_form_update s now sel_id f = Inr (msgs, s') \<Longrightarrow> status_set s'"
  by (auto simp: edit_form_update_def update_booking_def form_data_def status_set_def Let_def
      split: if_splits)

lemma status_set_delete: "status_set s \<Longrightarrow> status_set (delete_booking s booking_id)"
  by (simp add: delete_booking_def status_set_def)

lemma status_set_import_event:
  "status_set (snd acc) \<Longrightarrow> status_set (snd (import_event q_room now ev acc))"
  by (auto simp: import_event_def sql_insert_def status_set_def Let_def
      split: option.splits list.splits)

lemma status_set_import_events:
  "status_set (snd acc) \<Longrightarrow> status_set (snd (fold (import_event q_room now) evs acc))"
  by (induction evs arbitrary: acc) (simp_all add: status_set_import_event)

lemma status_set_import:
  "status_set s \<Longrightarrow>
     status_set (snd (snd (import_ics_for_room requests_get calendar rnd s now q_room url)))"
  by (auto simp: import_ics_for_room_def Let_def status_set_import_events split: sum.splits)

lemma status_set_sync_rooms:
  "status_set (snd (snd acc)) \<Longrightarrow>
     status_set (snd (snd (sync_rooms requests_get calendar rnds now l acc)))"
proof (induction l arbitrary: acc)
  case Nil
  then show ?case by simp
next
  case (Cons p l)
  obtain r u where p: "p = (r, u)" by (cases p)
  obtain msgs c s where acc: "acc = (msgs, c, s)" by (cases acc)
  obtain m1 c1 s1 where i: "import_ics_for_room requests_get calendar (rnds r) s now r u = (m1, c1, s1)"
    by (cases "import_ics_for_room requests_get calendar (rnds r) s now r u")
  from Cons.prems acc have "status_set s" by simp
  then have "status_set s1"
    using status_set_import [of s requests_get calendar "rnds r" now r u] i by simp
  then show ?case using Cons.IH [of "(msgs @ m1, c + c1, s1)"] by (simp add: p acc i)
qed

lemma status_set_sync_all:
  "status_set s \<Longrightarrow> status_set (snd (snd (sync_all requests_get calendar rnds s now)))"
  using status_set_sync_rooms [of "([], 0, s)" requests_get calendar rnds now "get_ical_map s"]
  by (auto simp: sync_all_def split: prod.splits)

text \<open>
  C1. In a store where every booking has a status, whatever the candidate
  (room, check-in, check-out) and \<open>exclude_id\<close>: \<open>has_overlap\<close> lists a booking
  \<open>b\<close> among the conflicts exactly when \<open>b\<close> is a row of the store with
  \<open>room = q_room\<close>, a status other than \<open>Annullata\<close>, an id different from
  \<open>exclude_id\<close> when one is given, and \<open>check_in b < q_check_out\<close> and
  \<open>check_out b > q_check_in\<close>; and the flag it returns is true exactly when the
  store has such a row, that is when the list is not empty.
\<close>

theorem has_overlap_conflicts:
  assumes "status_set s"
  shows "(b \<in> set (snd (has_overlap s q_check_in q_check_out q_room exclude_id)) \<longleftrightarrow>
            b \<in> set (bookings s) \<and> room b = Some q_room \<and>
            status b \<noteq> Some ''Annullata'' \<and>
            (\<forall>x. exclude_id = Some x \<longrightarrow> row_id b \<noteq> x) \<and>
            check_in b < q_check_out \<and> check_out b > q_check_in) \<and>
         (fst (has_overlap s q_check_in q_check_out q_room exclude_id) \<longleftrightarrow>
            (\<exists>b \<in> set (bookings s). room b = Some q_room \<and>
               status b \<noteq> Some ''Annullata'' \<and>
               (\<forall>x. exclude_id = Some x \<longrightarrow> row_id b \<noteq> x) \<and>
               check_in b < q_check_out \<and> check_out b > q_check_in)) \<and>
         (fst (has_overlap s q_check_in q_check_out q_room exclude_id) \<longleftrightarrow>
            snd (has_overlap s q_check_in q_check_out q_room exclude_id) \<noteq> [])"
proof -
  have row: "sql_where (overlap_where q_check_in q_check_out q_room exclude_id b') \<longleftrightarrow>
      room b' = Some q_room \<and> status b' \<noteq> Some ''Annullata'' \<and>
      (\<forall>x. exclude_id = Some x \<longrightarrow> row_id b' \<noteq> x) \<and>
      check_in b' < q_check_out \<and> check_out b' > q_check_in"
    if "b' \<in> set (bookings s)" for b'
  proof -
    from assms that obtain st where "status b' = Some st"
      by (auto simp: status_set_def)
    then show ?thesis by (auto simp: sql_where_overlap)
  qed
  show ?thesis
    unfolding has_overlap_rows using row by (auto simp: filter_empty_conv)
qed

text \<open>
  The stay of \<open>row_confirmed\<close> conflicts with the candidate 2024-06-04 to 2024-06-06,
  and not with the candidate 2024-06-05 to 2024-06-07, which starts on its day of
  departure; nor does it conflict with the first candidate when it is itself the
  booking being edited.
\<close>

theorem has_overlap_conflicts_witness:
  "status_set store_confirmed \<and>
   has_overlap store_confirmed 739041 739043 ''R1'' None = (True, [row_confirmed]) \<and>
   has_overlap store_confirmed 739042 739044 ''R1'' None = (False, []) \<and>
   row_confirmed \<notin> set (snd (has_overlap store_confirmed 739041 739043 ''R1'' (Some 1)))"
proof -
  have s: "status_set store_confirmed"
    by (simp add: status_set_def store_confirmed_def row_confirmed_def)
  have r: "bookings store_confirmed = [row_confirmed]" "room row_confirmed = Some ''R1''"
    "status row_confirmed = Some ''Confermata''" "row_id row_confirmed = 1"
    "check_in row_confirmed = 739038" "check_out row_confirmed = 739042"
    by (simp_all add: store_confirmed_def row_confirmed_def)
  have l: "snd (has_overlap store_confirmed a b c d) = [] \<or>
           snd (has_overlap store_confirmed a b c d) = [row_confirmed]" for a b c d
    by (simp add: has_overlap_rows r)
  from has_overlap_conflicts [OF s, of row_confirmed 739041 739043 "''R1''" None]
    has_overlap_conflicts [OF s, of row_confirmed 739042 739044 "''R1''" None]
    has_overlap_conflicts [OF s, of row_confirmed 739041 739043 "''R1''" "Some 1"]
    l [of 739041 739043 "''R1''" None] l [of 739042 739044 "''R1''" None]
  show ?thesis
    using s by (auto simp: r prod_eq_iff)
qed

text \<open>
  Without that condition the list can miss a row: \<open>insert_booking\<close>, given a
  dictionary without the key \<open>status\<close> (which no caller in the program passes),
  stores the status \<open>NULL\<close>, and \<open>NULL != 'Annullata'\<close> is not true in SQL, so
  \<open>has_overlap\<close> does not list that row.
\<close>

lemma has_overlap_null_status:
  "insert_booking empty_store 0 data_without_status = Inr (1, store_without_status) \<and>
   row_without_status \<in> set (bookings store_without_status) \<and>
   room row_without_status = Some ''R1'' \<and>
   status row_without_status \<noteq> Some ''Annullata'' \<and>
   check_in row_without_status < 739043 \<and> check_out row_without_status > 739041 \<and>
   has_overlap store_without_status 739041 739043 ''R1'' None = (False, [])"
  by (simp add: insert_booking_def sql_insert_def next_rowid_def empty_store_def
      data_without_status_def no_fields_def row_without_status_def store_without_status_def
      has_overlap_def overlap_where_def sql_eq_def sql_ne_def sql_lt_def sql_gt_def sql_where_def)

section \<open>Feed import\<close>

lemmas feed_ex_defs = url_r1_def text_r1_def url_no_uid_def text_no_uid_def day_0601_def
  day_0605_def event_with_uid_def event_without_start_def event_empty_uid_def
  event_fresh_uid_def requests_get_ex_def calendar_ex_def empty_store_def

lemma select_external_Nil:
  "select_external s ''booking_com_ical'' u = [] \<longleftrightarrow> \<not> imported s u"
  by (auto simp: select_external_def imported_def filter_empty_conv)

lemma import_event_no_dates:
  "\<not> has_dates ev \<Longrightarrow> import_event rm now ev (c, s) = (c, s)"
  by (auto simp: import_event_def has_dates_def Let_def split: option.splits)

lemma import_event_known:
  "has_dates ev \<Longrightarrow> imported s (event_uid rm ev) \<Longrightarrow> import_event rm now ev (c, s) = (c, s)"
  using select_external_Nil [of s "event_uid rm ev"]
  by (auto simp: import_event_def has_dates_def Let_def split: option.splits list.splits)

lemma import_event_new:
  "has_dates ev \<Longrightarrow> \<not> imported s (event_uid rm ev) \<Longrightarrow>
     import_event rm now ev (c, s) =
       (c + 1, s\<lparr>bookings := bookings s @ [imported_row rm now ev (next_rowid s)],
                 seq := next_rowid s\<rparr>)"
  using select_external_Nil [of s "event_uid rm ev"]
  by (auto simp: import_event_def has_dates_def Let_def sql_insert_def imported_row_def
      split: option.splits list.splits)

lemma import_event_cases:
  obtains (skip) "import_event rm now ev (c, s) = (c, s)"
        | (new) "has_dates ev" "\<not> imported s (event_uid rm ev)"
                "import_event rm now ev (c, s) =
                   (c + 1, s\<lparr>bookings := bookings s @ [imported_row rm now ev (next_rowid s)],
                             seq := next_rowid s\<rparr>)"
  using import_event_no_dates import_event_known import_event_new by blast

lemma imported_append:
  "imported s u \<Longrightarrow> imported (s\<lparr>bookings := bookings s @ bs, seq := k\<rparr>) u"
  by (auto simp: imported_def)

lemma imported_after_event:
  assumes "has_dates ev"
  shows "imported (snd (import_event rm now ev (c, s))) (event_uid rm ev)"
proof (cases "imported s (event_uid rm ev)")
  case True
  with assms show ?thesis by (simp add: import_event_known)
next
  case False
  with assms show ?thesis by (simp add: import_event_new imported_def imported_row_def)
qed

lemma imported_mono_event:
  "imported s u \<Longrightarrow> imported (snd (import_event rm now ev (c, s))) u"
  by (cases rule: import_event_cases [of rm now ev c s]) (auto simp: imported_append)

lemma imported_mono_fold:
  "imported (snd acc) u \<Longrightarrow> imported (snd (fold (import_event rm now) evs acc)) u"
proof (induction evs arbitrary: acc)
  case Nil
  then show ?case by simp
next
  case (Cons ev evs)
  obtain c s where acc: "acc = (c, s)" by (cases acc)
  with Cons.prems have "imported (snd (import_event rm now ev acc)) u"
    by (simp add: imported_mono_event)
  then show ?case using Cons.IH by simp
qed

lemma imported_after_fold:
  "ev \<in> set evs \<Longrightarrow> has_dates ev \<Longrightarrow>
     imported (snd (fold (import_event rm now) evs acc)) (event_uid rm ev)"
proof (induction evs arbitrary: acc)
  case Nil
  then show ?case by simp
next
  case (Cons e evs)
  obtain c s where acc: "acc = (c, s)" by (cases acc)
  show ?case
  proof (cases "ev = e")
    case True
    with Cons.prems acc have "imported (snd (import_event rm now e acc)) (event_uid rm ev)"
      by (simp add: imported_after_event)
    then show ?thesis by (simp add: imported_mono_fold)
  next
    case False
    with Cons show ?thesis by simp
  qed
qed

lemma fold_import_idle:
  "\<forall>ev \<in> set evs. has_dates ev \<longrightarrow> imported s (event_uid rm ev) \<Longrightarrow>
     fold (import_event rm now) evs (c, s) = (c, s)"
proof (induction evs)
  case Nil
  then show ?case by simp
next
  case (Cons e evs)
  then have "import_event rm now e (c, s) = (c, s)"
    by (cases "has_dates e") (simp_all add: import_event_known import_event_no_dates)
  with Cons show ?case by simp
qed

text \<open>
  A second pass over events of the first pass, in any order and with any repetition,
  inserts nothing.
\<close>

lemma fold_import_again:
  assumes "set evs' \<subseteq> set evs"
  shows "fold (import_event rm now') evs' (c, snd (fold (import_event rm now) evs acc)) =
           (c, snd (fold (import_event rm now) evs acc))"
  using assms by (intro fold_import_idle) (auto simp: imported_after_fold)

lemma fold_import_count:
  "\<exists>new. bookings (snd (fold (import_event rm now) evs (c, s))) = bookings s @ new \<and>
          fst (fold (import_event rm now) evs (c, s)) = c + length new"
proof (induction evs arbitrary: c s)
  case Nil
  then show ?case by simp
next
  case (Cons e evs)
  show ?case
  proof (cases rule: import_event_cases [of rm now e c s])
    case skip
    then show ?thesis using Cons.IH [of c s] by simp
  next
    case new
    then show ?thesis
      using Cons.IH [of "c + 1"
          "s\<lparr>bookings := bookings s @ [imported_row rm now e (next_rowid s)], seq := next_rowid s\<rparr>"]
      by auto
  qed
qed

lemma first_run_ex:
  "import_ics_for_room requests_get_ex calendar_ex rnd empty_store 10 ''R1'' url_r1 =
     ([], 1, \<lparr>bookings = [imported_row ''R1'' 10 event_with_uid 1], seq = 1, ical_endpoints = []\<rparr>)"
  by (simp add: feed_ex_defs import_ics_for_room_def import_event_def Let_def event_uid_def
      select_external_def sql_insert_def next_rowid_def imported_row_def)

text \<open>
  When the second parse of the feed yields only events that the first parse yielded,
  identifiers included, the second import creates no booking, returns the count 0 and
  leaves the store as the first import left it.
\<close>

lemma import_again_same_events:
  assumes "requests_get url = Inr resp_text"
    and "calendar rnd resp_text = Inr events" and "calendar rnd' resp_text = Inr events'"
    and "set events' \<subseteq> set events"
  shows "import_ics_for_room requests_get calendar rnd'
           (snd (snd (import_ics_for_room requests_get calendar rnd s now q_room url)))
           now' q_room url =
         ([], 0, snd (snd (import_ics_for_room requests_get calendar rnd s now q_room url)))"
  using assms fold_import_again [of events' events q_room now' 0 now "(0, s)"]
  by (simp add: import_ics_for_room_def Let_def)

lemma uid_gen_ex: "uid_gen (Suc 0) = ''f@ics.py''" "uid_gen 2 = ''ff@ics.py''"
  by (simp_all add: uid_gen_def numeral_2_eq_2)

text \<open>
  C2 fails on the code for a feed event that has no identifier. The parser gives such
  an event an identifier drawn from its random generator, another one at every parse;
  the importer takes it for the event's own, so the key built from room, start and end
  is not used. On the feed at \<open>url_no_uid\<close>, unchanged between the two runs, the
  first import into the empty store creates one booking and the second import creates
  one more, for the same room and the same dates.
\<close>

theorem import_twice_without_uid:
  "requests_get_ex url_no_uid = Inr text_no_uid \<and>
   calendar_ex 1 text_no_uid = Inr [event_fresh_uid 1] \<and>
   calendar_ex 2 text_no_uid = Inr [event_fresh_uid 2] \<and>
   import_ics_for_room requests_get_ex calendar_ex 1 empty_store 10 ''R1'' url_no_uid =
     ([], 1, \<lparr>bookings = [imported_row ''R1'' 10 (event_fresh_uid 1) 1], seq = 1,
              ical_endpoints = []\<rparr>) \<and>
   import_ics_for_room requests_get_ex calendar_ex 2
     \<lparr>bookings = [imported_row ''R1'' 10 (event_fresh_uid 1) 1], seq = 1, ical_endpoints = []\<rparr>
     20 ''R1'' url_no_uid =
     ([], 1, \<lparr>bookings = [imported_row ''R1'' 10 (event_fresh_uid 1) 1,
                          imported_row ''R1'' 20 (event_fresh_uid 2) 2], seq = 2,
              ical_endpoints = []\<rparr>) \<and>
   external_uid (imported_row ''R1'' 10 (event_fresh_uid 1) 1) = Some ''f@ics.py'' \<and>
   external_uid (imported_row ''R1'' 20 (event_fresh_uid 2) 2) = Some ''ff@ics.py'' \<and>
   room (imported_row ''R1'' 20 (event_fresh_uid 2) 2) = Some ''R1'' \<and>
   check_in (imported_row ''R1'' 20 (event_fresh_uid 2) 2) = 739038 \<and>
   check_out (imported_row ''R1'' 20 (event_fresh_uid 2) 2) = 739042 \<and>
   room (imported_row ''R1'' 10 (event_fresh_uid 1) 1) = Some ''R1'' \<and>
   check_in (imported_row ''R1'' 10 (event_fresh_uid 1) 1) = 739038 \<and>
   check_out (imported_row ''R1'' 10 (event_fresh_uid 1) 1) = 739042"
  by (simp add: feed_ex_defs uid_gen_ex import_ics_for_room_def import_event_def Let_def
      event_uid_def select_external_def sql_insert_def next_rowid_def imported_row_def)



section \<open>Failures of a feed\<close>

lemma sync_rooms_msgs:
  "snd (sync_rooms rg cal rnds now l (m, c, s)) = snd (sync_rooms rg cal rnds now l (m', c, s))"
proof (induction l arbitrary: m m' c s)
  case Nil
  then show ?case by simp
next
  case (Cons p l)
  obtain r u where p: "p = (r, u)" by (cases p)
  obtain m1 c1 s1 where i: "import_ics_for_room rg cal (rnds r) s now r u = (m1, c1, s1)"
    by (cases "import_ics_for_room rg cal (rnds r) s now r u")
  show ?case using Cons.IH [of "m @ m1" "c + c1" s1 "m' @ m1"] by (simp add: p i)
qed

lemma import_fails:
  "sync_fails rg cal rnd u \<Longrightarrow> snd (import_ics_for_room rg cal rnd s now r u) = (0, s)"
  by (auto simp: sync_fails_def import_ics_for_room_def split: sum.splits)

lemma sync_rooms_skip_failed:
  assumes "sync_fails rg cal (rnds r) u"
  shows "snd (sync_rooms rg cal rnds now (pre @ (r, u) # post) (m, c, s)) =
         snd (sync_rooms rg cal rnds now (pre @ post) (m, c, s))"
proof (induction pre arbitrary: m c s)
  case Nil
  obtain m1 where "import_ics_for_room rg cal (rnds r) s now r u = (m1, 0, s)"
    using import_fails [OF assms, of s now r] by (cases "import_ics_for_room rg cal (rnds r) s now r u") auto
  then show ?case using sync_rooms_msgs [of rg cal rnds now post "m @ m1" c s m] by simp
next
  case (Cons p pre)
  obtain r' u' where p: "p = (r', u')" by (cases p)
  obtain m1 c1 s1 where i: "import_ics_for_room rg cal (rnds r') s now r' u' = (m1, c1, s1)"
    by (cases "import_ics_for_room rg cal (rnds r') s now r' u'")
  show ?case using Cons.IH [of "m @ m1" "c + c1" s1] by (simp add: p i)
qed

text \<open>
  C7. When the download raises, \<open>import_ics_for_room\<close> shows the download error,
  returns 0 and leaves the store as it is; when the parser raises, it shows the
  parsing error, returns 0 and leaves the store as it is; either way after the one
  call of the download. In the run over all endpoints, an endpoint whose download or
  parsing raises does not change the total count or the final store: they are those
  of the run over the other endpoints.
\<close>

theorem sync_failure_isolated:
  "(requests_get url = Inl e \<longrightarrow>
      import_ics_for_room requests_get calendar rnd s now q_room url =
        ([Err_download q_room e], 0, s)) \<and>
   (requests_get url = Inr t \<and> calendar rnd t = Inl e \<longrightarrow>
      import_ics_for_room requests_get calendar rnd s now q_room url =
        ([Err_parsing q_room e], 0, s)) \<and>
   (get_ical_map s = pre @ (q_room, url) # post \<and> sync_fails requests_get calendar (rnds q_room) url \<longrightarrow>
      snd (sync_all requests_get calendar rnds s now) =
      snd (sync_rooms requests_get calendar rnds now (pre @ post) ([], 0, s)))"
proof -
  have "snd (sync_all requests_get calendar rnds s now) =
        snd (sync_rooms requests_get calendar rnds now (get_ical_map s) ([], 0, s))"
    by (simp add: sync_all_def split: prod.splits)
  then show ?thesis
    by (auto simp: import_ics_for_room_def sync_rooms_skip_failed)
qed

text \<open>
  With the two example endpoints, the feed of \<open>R2\<close> cannot be downloaded and the
  feed of \<open>R1\<close> is imported all the same: one booking in total.
\<close>

theorem sync_failure_isolated_witness:
  "requests_get_ex ''https://example.org/r2.ics'' = Inl ''ConnectionError'' \<and>
   import_ics_for_room requests_get_ex calendar_ex 0 store_two_endpoints 10 ''R2''
     ''https://example.org/r2.ics'' = ([Err_download ''R2'' ''ConnectionError''], 0, store_two_endpoints) \<and>
   get_ical_map store_two_endpoints = [] @ (''R2'', ''https://example.org/r2.ics'') # [(''R1'', url_r1)] \<and>
   fst (snd (sync_all requests_get_ex calendar_ex (\<lambda>r. 0) store_two_endpoints 10)) = 1"
proof -
  have a: "requests_get_ex ''https://example.org/r2.ics'' = Inl ''ConnectionError''"
    by (simp add: requests_get_ex_def url_r1_def url_no_uid_def)
  have b: "get_ical_map store_two_endpoints =
             [] @ (''R2'', ''https://example.org/r2.ics'') # [(''R1'', url_r1)]"
    by (simp add: get_ical_map_def store_two_endpoints_def)
  have c: "sync_fails requests_get_ex calendar_ex 0 ''https://example.org/r2.ics''"
    by (simp add: sync_fails_def a)
  have d: "fst (snd (import_ics_for_room requests_get_ex calendar_ex 0 store_two_endpoints 10
             ''R1'' url_r1)) = 1"
    by (simp add: feed_ex_defs store_two_endpoints_def import_ics_for_room_def import_event_def
        Let_def event_uid_def select_external_def sql_insert_def)
  show ?thesis
    using sync_failure_isolated [where requests_get = requests_get_ex
        and url = "''https://example.org/r2.ics''" and e = "''ConnectionError''"
        and calendar = calendar_ex and rnd = 0 and rnds = "\<lambda>r. 0" and s = store_two_endpoints
        and now = 10 and q_room = "''R2''" and t = "[]" and pre = "[]"
        and post = "[(''R1'', url_r1)]"]
      a b c d
    by (simp split: prod.splits)
qed

section \<open>Updating a booking\<close>

lemma update_booking_absent:
  "\<not> (\<exists>b \<in> set (bookings s). row_id b = i) \<Longrightarrow> update_booking s now i data = Inr s"
  by (simp add: update_booking_def)

lemma update_booking_present:
  assumes "\<exists>b \<in> set (bookings s). row_id b = i"
    and "d_guest_name data = Some gn" "d_check_in data = Some ci" "d_check_out data = Some co"
  shows "update_booking s now i data =
     Inr (s\<lparr>bookings :=
       map (\<lambda>b. if row_id b = i then
              b\<lparr>guest_name := gn, email := d_email data, phone := d_phone data,
                source := d_source data, room := d_room data, status := d_status data,
                check_in := ci, check_out := co, guests := d_guests data,
                price := d_price data, notes_col := d_notes data,
                external_source := d_external_source data,
                external_uid := d_external_uid data, updated_at := now\<rparr>
            else b) (bookings s)\<rparr>)"
  using assms by (simp add: update_booking_def)

lemma update_booking_integrity:
  assumes "\<exists>b \<in> set (bookings s). row_id b = i"
    and "d_guest_name data = None \<or> d_check_in data = None \<or> d_check_out data = None"
  shows "\<exists>c. update_booking s now i data = Inl (IntegrityError c)"
  using assms by (auto simp: update_booking_def split: option.splits)

lemma update_booking_keys:
  "update_booking s now i data = Inr s' \<Longrightarrow>
     map row_id (bookings s') = map row_id (bookings s) \<and>
     map created_at (bookings s') = map created_at (bookings s)"
  by (auto simp: update_booking_def split: if_splits option.splits)

lemma fold_import_ge: "c \<le> fst (fold (import_event rm now) evs (c, s))"
  using fold_import_count [of rm now evs c s] by auto

lemma fold_import_creates:
  "ev \<in> set evs \<Longrightarrow> has_dates ev \<Longrightarrow> \<not> imported s (event_uid rm ev) \<Longrightarrow>
     c < fst (fold (import_event rm now) evs (c, s))"
proof (induction evs arbitrary: c s)
  case Nil
  then show ?case by simp
next
  case (Cons e evs)
  show ?case
  proof (cases rule: import_event_cases [of rm now e c s])
    case skip
    have "ev \<noteq> e"
    proof
      assume "ev = e"
      with Cons.prems have "import_event rm now e (c, s) \<noteq> (c, s)"
        by (simp add: import_event_new)
      with skip show False by simp
    qed
    with Cons.prems have "ev \<in> set evs" by simp
    with Cons.IH [of s c] Cons.prems skip show ?thesis by simp
  next
    case new
    have "c + 1 \<le> fst (fold (import_event rm now) evs (c + 1,
        s\<lparr>bookings := bookings s @ [imported_row rm now e (next_rowid s)], seq := next_rowid s\<rparr>))"
      by (rule fold_import_ge)
    with new show ?thesis by simp
  qed
qed

lemma insert_form:
  "insert_booking s now (form_data f) =
     Inr (next_rowid s, s\<lparr>bookings := bookings s @
       [\<lparr>row_id = next_rowid s, guest_name = f_guest_name f, email = Some (f_email f),
         phone = Some (f_phone f), source = Some (f_source f), room = Some (f_room f),
         status = Some (f_status f), check_in = f_check_in f, check_out = f_check_out f,
         guests = Some (f_guests f), price = Some (f_price f), notes_col = Some (f_notes f),
         external_source = None, external_uid = None, created_at = now, updated_at = now\<rparr>],
       seq := next_rowid s\<rparr>)"
  by (simp add: insert_booking_def form_data_def sql_insert_def Let_def)


lemma form_data_required:
  "d_guest_name (form_data f) = Some (f_guest_name f)"
  "d_check_in (form_data f) = Some (f_check_in f)"
  "d_check_out (form_data f) = Some (f_check_out f)"
  "d_external_source (form_data f) = None" "d_external_uid (form_data f) = None"
  by (simp_all add: form_data_def)

lemma update_form_rows:
  "\<exists>s'. update_booking s now i (form_data f) = Inr s' \<and>
        length (bookings s') = length (bookings s) \<and>
        (\<forall>b' \<in> set (bookings s').
           (row_id b' = i \<longrightarrow>
              guest_name b' = f_guest_name f \<and> room b' = Some (f_room f) \<and>
              status b' = Some (f_status f) \<and> check_in b' = f_check_in f \<and>
              check_out b' = f_check_out f \<and> updated_at b' = now \<and>
              external_source b' = None \<and> external_uid b' = None) \<and>
           (row_id b' \<noteq> i \<longrightarrow> b' \<in> set (bookings s)))"
proof (cases "\<exists>b \<in> set (bookings s). row_id b = i")
  case True
  show ?thesis
    by (simp add: update_booking_present [OF True form_data_required(1-3)])
       (auto simp: form_data_def)
next
  case False
  then show ?thesis by (auto simp: update_booking_absent)
qed

lemma edit_form_update_valid:
  assumes "f_guest_name f \<noteq> []" "f_check_in f < f_check_out f"
    and "update_booking s now i (form_data f) = Inr s'"
  shows "edit_form_update s now i f =
     Inr (overlap_warning (has_overlap s (f_check_in f) (f_check_out f) (f_room f) (Some i))
            (f_status f) @ [Updated], s')"
  using assms by (simp add: edit_form_update_def Let_def)

lemma not_imported_after_edit:
  assumes "\<forall>b \<in> set (bookings s). external_source b = Some ''booking_com_ical'' \<and>
             external_uid b = Some u \<longrightarrow> row_id b = i"
    and "update_booking s now i (form_data f) = Inr s'"
  shows "\<not> imported s' u"
proof
  assume "imported s' u"
  then obtain b' where b': "b' \<in> set (bookings s')"
    "external_source b' = Some ''booking_com_ical''" "external_uid b' = Some u"
    by (auto simp: imported_def)
  from update_form_rows [of s now i f] assms(2)
  have r: "(row_id b' = i \<longrightarrow> external_source b' = None) \<and> (row_id b' \<noteq> i \<longrightarrow> b' \<in> set (bookings s))"
    using b'(1) by auto
  show False
  proof (cases "row_id b' = i")
    case True
    with r b'(2) show False by simp
  next
    case False
    with r have "b' \<in> set (bookings s)" by simp
    with assms(1) b'(2,3) have "row_id b' = i" by blast
    with False show False by simp
  qed
qed

text \<open>
  C8, as the code has it. \<open>update_booking\<close> with an id that no row has raises nothing
  and returns the store as it is. With an id that a row has and a dictionary that
  supplies \<open>guest_name\<close>, \<open>check_in\<close> and \<open>check_out\<close>, it replaces the thirteen
  listed columns of that row by the entries of the dictionary (\<open>NULL\<close> for a missing
  key), sets \<open>updated_at\<close> to the current time, keeps \<open>id\<close> and \<open>created_at\<close> and
  leaves every other row as it is. With an id that a row has and a dictionary without
  one of those three keys it raises \<open>IntegrityError\<close>, and the store stays as it is.
\<close>

theorem update_booking_by_id:
  "(\<not> (\<exists>b \<in> set (bookings s). row_id b = booking_id) \<longrightarrow>
      update_booking s now booking_id data = Inr s) \<and>
   ((\<exists>b \<in> set (bookings s). row_id b = booking_id) \<and> d_guest_name data = Some gn \<and>
    d_check_in data = Some ci \<and> d_check_out data = Some co \<longrightarrow>
      (\<exists>s'. update_booking s now booking_id data = Inr s' \<and>
         seq s' = seq s \<and> ical_endpoints s' = ical_endpoints s \<and>
         length (bookings s') = length (bookings s) \<and>
         (\<forall>k < length (bookings s).
            if row_id (bookings s ! k) = booking_id then
              row_id (bookings s' ! k) = booking_id \<and>
              created_at (bookings s' ! k) = created_at (bookings s ! k) \<and>
              updated_at (bookings s' ! k) = now \<and>
              guest_name (bookings s' ! k) = gn \<and> email (bookings s' ! k) = d_email data \<and>
              phone (bookings s' ! k) = d_phone data \<and> source (bookings s' ! k) = d_source data \<and>
              room (bookings s' ! k) = d_room data \<and> status (bookings s' ! k) = d_status data \<and>
              check_in (bookings s' ! k) = ci \<and> check_out (bookings s' ! k) = co \<and>
              guests (bookings s' ! k) = d_guests data \<and> price (bookings s' ! k) = d_price data \<and>
              notes_col (bookings s' ! k) = d_notes data \<and>
              external_source (bookings s' ! k) = d_external_source data \<and>
              external_uid (bookings s' ! k) = d_external_uid data
            else bookings s' ! k = bookings s ! k))) \<and>
   ((\<exists>b \<in> set (bookings s). row_id b = booking_id) \<and>
    (d_guest_name data = None \<or> d_check_in data = None \<or> d_check_out data = None) \<longrightarrow>
      (\<exists>c. update_booking s now booking_id data = Inl (IntegrityError c)))"
proof (intro conjI impI)
  assume "\<not> (\<exists>b \<in> set (bookings s). row_id b = booking_id)"
  then show "update_booking s now booking_id data = Inr s"
    by (rule update_booking_absent)
next
  assume a: "(\<exists>b \<in> set (bookings s). row_id b = booking_id) \<and> d_guest_name data = Some gn \<and>
    d_check_in data = Some ci \<and> d_check_out data = Some co"
  show "\<exists>s'. update_booking s now booking_id data = Inr s' \<and>
         seq s' = seq s \<and> ical_endpoints s' = ical_endpoints s \<and>
         length (bookings s') = length (bookings s) \<and>
         (\<forall>k < length (bookings s).
            if row_id (bookings s ! k) = booking_id then
              row_id (bookings s' ! k) = booking_id \<and>
              created_at (bookings s' ! k) = created_at (bookings s ! k) \<and>
              updated_at (bookings s' ! k) = now \<and>
              guest_name (bookings s' ! k) = gn \<and> email (bookings s' ! k) = d_email data \<and>
              phone (bookings s' ! k) = d_phone data \<and> source (bookings s' ! k) = d_source data \<and>
              room (bookings s' ! k) = d_room data \<and> status (bookings s' ! k) = d_status data \<and>
              check_in (bookings s' ! k) = ci \<and> check_out (bookings s' ! k) = co \<and>
              guests (bookings s' ! k) = d_guests data \<and> price (bookings s' ! k) = d_price data \<and>
              notes_col (bookings s' ! k) = d_notes data \<and>
              external_source (bookings s' ! k) = d_external_source data \<and>
              external_uid (bookings s' ! k) = d_external_uid data
            else bookings s' ! k = bookings s ! k)"
    using a by (simp add: update_booking_present [of s booking_id data gn ci co])
next
  assume "(\<exists>b \<in> set (bookings s). row_id b = booking_id) \<and>
    (d_guest_name data = None \<or> d_check_in data = None \<or> d_check_out data = None)"
  then show "\<exists>c. update_booking s now booking_id data = Inl (IntegrityError c)"
    using update_booking_integrity [of s booking_id data now] by blast
qed

text \<open>
  On the store with the one row of id 1: the update of id 7 changes nothing, and the
  update of id 1 with the dictionary of Bob's form writes his name and the time 5.
\<close>

theorem update_booking_by_id_witness:
  "update_booking store_confirmed 5 7 no_fields = Inr store_confirmed \<and>
   (\<exists>s'. update_booking store_confirmed 5 1 (form_data form_bob) = Inr s' \<and>
      length (bookings s') = 1 \<and>
      guest_name (bookings s' ! 0) = ''Bob'' \<and> updated_at (bookings s' ! 0) = 5 \<and>
      created_at (bookings s' ! 0) = 0 \<and> external_uid (bookings s' ! 0) = None)"
proof -
  have a: "\<not> (\<exists>b \<in> set (bookings store_confirmed). row_id b = 7)"
    and b: "\<exists>b \<in> set (bookings store_confirmed). row_id b = 1"
    and l: "length (bookings store_confirmed) = 1" "created_at (bookings store_confirmed ! 0) = 0"
      "row_id (bookings store_confirmed ! 0) = 1"
    by (simp_all add: store_confirmed_def row_confirmed_def)
  have c: "d_guest_name (form_data form_bob) = Some ''Bob''"
    "d_check_in (form_data form_bob) = Some 739041" "d_check_out (form_data form_bob) = Some 739043"
    "d_external_uid (form_data form_bob) = None"
    by (simp_all add: form_data_def form_bob_def)
  from update_booking_by_id [of store_confirmed 7 5 no_fields] a
  have 1: "update_booking store_confirmed 5 7 no_fields = Inr store_confirmed" by blast
  from update_booking_by_id [of store_confirmed 1 5 "form_data form_bob" "''Bob''" 739041 739043] b c
  obtain s' where s': "update_booking store_confirmed 5 1 (form_data form_bob) = Inr s'"
    "length (bookings s') = length (bookings store_confirmed)"
    "\<forall>k < length (bookings store_confirmed).
            if row_id (bookings store_confirmed ! k) = 1 then
              created_at (bookings s' ! k) = created_at (bookings store_confirmed ! k) \<and>
              updated_at (bookings s' ! k) = 5 \<and>
              guest_name (bookings s' ! k) = ''Bob'' \<and>
              external_uid (bookings s' ! k) = d_external_uid (form_data form_bob)
            else bookings s' ! k = bookings store_confirmed ! k"
    by auto
  from s'(3) l c have "created_at (bookings s' ! 0) = 0 \<and> updated_at (bookings s' ! 0) = 5 \<and>
     guest_name (bookings s' ! 0) = ''Bob'' \<and> external_uid (bookings s' ! 0) = None"
    by simp
  with 1 s'(1,2) l show ?thesis by simp
qed

text \<open>
  C8 as stated fails for the empty dictionary: the row of id 1 is present, and the
  update raises \<open>IntegrityError\<close> in place of replacing its columns.
\<close>

theorem update_booking_empty_dict_counterexample:
  "row_confirmed \<in> set (bookings store_confirmed) \<and> row_id row_confirmed = 1 \<and>
   update_booking store_confirmed 5 1 no_fields = Inl (IntegrityError ''bookings.guest_name'')"
  by (simp add: update_booking_def store_confirmed_def row_confirmed_def no_fields_def)

text \<open>
  C9, as the code has it. When the id is present and the dictionary supplies
  \<open>guest_name\<close>, \<open>check_in\<close> and \<open>check_out\<close>, each of the ten nullable columns of
  the row is overwritten by the entry of the dictionary, which is \<open>NULL\<close> for a key
  that the caller left out. An update that succeeds changes no \<open>id\<close> and no
  \<open>created_at\<close>. The handler of the edit form never passes \<open>external_source\<close> or
  \<open>external_uid\<close>: after a valid edit of booking \<open>booking_id\<close> both are \<open>NULL\<close> in
  that row; and when that row was the only one holding the identifier of a dated event
  of the feed, the next import of the feed creates at least one booking again: no
  row holds that identifier after the edit, and a row holds it after the import.
\<close>

theorem update_booking_absent_keys:
  "((\<exists>b \<in> set (bookings s). row_id b = booking_id) \<and> d_guest_name data = Some gn \<and>
    d_check_in data = Some ci \<and> d_check_out data = Some co \<longrightarrow>
      (\<exists>s'. update_booking s now booking_id data = Inr s' \<and>
         (\<forall>b' \<in> set (bookings s'). row_id b' = booking_id \<longrightarrow>
            email b' = d_email data \<and> phone b' = d_phone data \<and> source b' = d_source data \<and>
            room b' = d_room data \<and> status b' = d_status data \<and> guests b' = d_guests data \<and>
            price b' = d_price data \<and> notes_col b' = d_notes data \<and>
            external_source b' = d_external_source data \<and>
            external_uid b' = d_external_uid data))) \<and>
   (update_booking s now booking_id data = Inr s1 \<longrightarrow>
      map row_id (bookings s1) = map row_id (bookings s) \<and>
      map created_at (bookings s1) = map created_at (bookings s)) \<and>
   (f_guest_name f \<noteq> [] \<and> f_check_in f < f_check_out f \<longrightarrow>
      (\<exists>w s2. edit_form_update s now booking_id f = Inr (w @ [Updated], s2) \<and>
         (\<forall>b' \<in> set (bookings s2). row_id b' = booking_id \<longrightarrow>
            external_source b' = None \<and> external_uid b' = None) \<and>
         ((\<forall>b \<in> set (bookings s). external_source b = Some ''booking_com_ical'' \<and>
              external_uid b = Some (event_uid q_room ev) \<longrightarrow> row_id b = booking_id) \<and>
          requests_get url = Inr resp_text \<and> calendar rnd resp_text = Inr events \<and>
          ev \<in> set events \<and> has_dates ev \<longrightarrow>
            0 < fst (snd (import_ics_for_room requests_get calendar rnd s2 now' q_room url)) \<and>
            \<not> imported s2 (event_uid q_room ev) \<and>
            imported (snd (snd (import_ics_for_room requests_get calendar rnd s2 now' q_room url)))
              (event_uid q_room ev))))"
proof (intro conjI impI)
  assume a: "(\<exists>b \<in> set (bookings s). row_id b = booking_id) \<and> d_guest_name data = Some gn \<and>
    d_check_in data = Some ci \<and> d_check_out data = Some co"
  show "\<exists>s'. update_booking s now booking_id data = Inr s' \<and>
         (\<forall>b' \<in> set (bookings s'). row_id b' = booking_id \<longrightarrow>
            email b' = d_email data \<and> phone b' = d_phone data \<and> source b' = d_source data \<and>
            room b' = d_room data \<and> status b' = d_status data \<and> guests b' = d_guests data \<and>
            price b' = d_price data \<and> notes_col b' = d_notes data \<and>
            external_source b' = d_external_source data \<and>
            external_uid b' = d_external_uid data)"
    using a by (simp add: update_booking_present [of s booking_id data gn ci co]) auto
next
  assume "update_booking s now booking_id data = Inr s1"
  then show "map row_id (bookings s1) = map row_id (bookings s)"
    and "map created_at (bookings s1) = map created_at (bookings s)"
    by (simp_all add: update_booking_keys)
next
  assume v: "f_guest_name f \<noteq> [] \<and> f_check_in f < f_check_out f"
  obtain s2 where s2: "update_booking s now booking_id (form_data f) = Inr s2"
    and rows: "\<forall>b' \<in> set (bookings s2). row_id b' = booking_id \<longrightarrow>
            external_source b' = None \<and> external_uid b' = None"
    using update_form_rows [of s now booking_id f] by blast
  have e: "edit_form_update s now booking_id f =
     Inr (overlap_warning
            (has_overlap s (f_check_in f) (f_check_out f) (f_room f) (Some booking_id))
            (f_status f) @ [Updated], s2)"
    using v s2 by (simp add: edit_form_update_valid)
  have again: "0 < fst (snd (import_ics_for_room requests_get calendar rnd s2 now' q_room url)) \<and>
            \<not> imported s2 (event_uid q_room ev) \<and>
            imported (snd (snd (import_ics_for_room requests_get calendar rnd s2 now' q_room url)))
              (event_uid q_room ev)"
    if h: "(\<forall>b \<in> set (bookings s). external_source b = Some ''booking_com_ical'' \<and>
              external_uid b = Some (event_uid q_room ev) \<longrightarrow> row_id b = booking_id) \<and>
          requests_get url = Inr resp_text \<and> calendar rnd resp_text = Inr events \<and>
          ev \<in> set events \<and> has_dates ev"
  proof -
    from h s2 have n: "\<not> imported s2 (event_uid q_room ev)"
      using not_imported_after_edit [of s "event_uid q_room ev" booking_id now f s2] by blast
    with h have c: "0 < fst (fold (import_event q_room now') events (0, s2))"
      using fold_import_creates [where ev = ev and evs = events and s = s2 and rm = q_room
          and c = 0 and now = now']
      by blast
    from h have i: "imported (snd (fold (import_event q_room now') events (0, s2)))
        (event_uid q_room ev)"
      using imported_after_fold [of ev events q_room now' "(0, s2)"] by blast
    from h n c i show ?thesis by (simp add: import_ics_for_room_def Let_def)
  qed
  show "\<exists>w s2. edit_form_update s now booking_id f = Inr (w @ [Updated], s2) \<and>
         (\<forall>b' \<in> set (bookings s2). row_id b' = booking_id \<longrightarrow>
            external_source b' = None \<and> external_uid b' = None) \<and>
         ((\<forall>b \<in> set (bookings s). external_source b = Some ''booking_com_ical'' \<and>
              external_uid b = Some (event_uid q_room ev) \<longrightarrow> row_id b = booking_id) \<and>
          requests_get url = Inr resp_text \<and> calendar rnd resp_text = Inr events \<and>
          ev \<in> set events \<and> has_dates ev \<longrightarrow>
            0 < fst (snd (import_ics_for_room requests_get calendar rnd s2 now' q_room url)) \<and>
            \<not> imported s2 (event_uid q_room ev) \<and>
            imported (snd (snd (import_ics_for_room requests_get calendar rnd s2 now' q_room url)))
              (event_uid q_room ev))"
    using e rows again by blast
qed

text \<open>
  The booking imported from the example feed is edited with Bob's form: its provenance
  pair is cleared, and the next import of the same feed creates a booking.
\<close>

theorem update_booking_absent_keys_witness:
  "imported store_imported (event_uid ''R1'' event_with_uid) \<and>
   (\<exists>w s2. edit_form_update store_imported 30 1 form_bob = Inr (w @ [Updated], s2) \<and>
      (\<forall>b' \<in> set (bookings s2). row_id b' = 1 \<longrightarrow>
         external_source b' = None \<and> external_uid b' = None) \<and>
      0 < fst (snd (import_ics_for_room requests_get_ex calendar_ex 0 s2 40 ''R1'' url_r1)) \<and>
      \<not> imported s2 (event_uid ''R1'' event_with_uid) \<and>
      imported (snd (snd (import_ics_for_room requests_get_ex calendar_ex 0 s2 40 ''R1'' url_r1)))
        (event_uid ''R1'' event_with_uid))"
proof -
  have i: "imported store_imported (event_uid ''R1'' event_with_uid)"
    by (simp add: imported_def store_imported_def imported_row_def)
  have v: "f_guest_name form_bob \<noteq> [] \<and> f_check_in form_bob < f_check_out form_bob"
    by (simp add: form_bob_def)
  have h: "(\<forall>b \<in> set (bookings store_imported). external_source b = Some ''booking_com_ical'' \<and>
              external_uid b = Some (event_uid ''R1'' event_with_uid) \<longrightarrow> row_id b = 1) \<and>
          requests_get_ex url_r1 = Inr text_r1 \<and>
          calendar_ex 0 text_r1 = Inr [event_with_uid, event_without_start] \<and>
          event_with_uid \<in> set [event_with_uid, event_without_start] \<and> has_dates event_with_uid"
    by (simp add: store_imported_def imported_row_def requests_get_ex_def calendar_ex_def
        has_dates_def event_with_uid_def)
  show ?thesis
    using i v h
      update_booking_absent_keys [where s = store_imported and booking_id = 1 and f = form_bob
        and now = 30 and now' = 40 and q_room = "''R1''" and ev = event_with_uid
        and requests_get = requests_get_ex and calendar = calendar_ex and rnd = 0 and url = url_r1
        and resp_text = text_r1 and events = "[event_with_uid, event_without_start]"
        and data = no_fields and gn = "[]" and ci = 0 and co = 0 and ?s1.0 = store_imported]
    by blast
qed

text \<open>
  C9 as stated fails for the key \<open>guest_name\<close>: with that key left out and the row
  present, the update raises \<open>IntegrityError\<close>, so that the stored name is kept, not
  overwritten by \<open>NULL\<close>.
\<close>

theorem update_booking_missing_name_counterexample:
  "row_confirmed \<in> set (bookings store_confirmed) \<and> row_id row_confirmed = 1 \<and>
   d_guest_name data_without_name = None \<and>
   update_booking store_confirmed 5 1 data_without_name =
     Inl (IntegrityError ''bookings.guest_name'')"
  by (simp add: update_booking_def store_confirmed_def row_confirmed_def data_without_name_def)

section \<open>The overlap warning\<close>

text \<open>
  C3. For every store and every form with a guest name and a check-out after the
  check-in, the handler of the new-booking form appends the booking of the form to the
  store and the handler of the edit form applies \<open>update_booking\<close> to the selected
  id, whatever \<open>has_overlap\<close> returns: its result only decides whether the warning
  with the conflicts is shown before the message of success.
\<close>

theorem overlap_is_advisory:
  assumes "f_guest_name f \<noteq> []" and "f_check_in f < f_check_out f"
  shows "(\<exists>w b. new_booking_submit s now f =
              Inr (w @ [Saved (next_rowid s)],
                   s\<lparr>bookings := bookings s @ [b], seq := next_rowid s\<rparr>) \<and>
            w = overlap_warning (has_overlap s (f_check_in f) (f_check_out f) (f_room f) None)
                  (f_status f) \<and>
            row_id b = next_rowid s \<and> guest_name b = f_guest_name f \<and>
            room b = Some (f_room f) \<and> status b = Some (f_status f) \<and>
            check_in b = f_check_in f \<and> check_out b = f_check_out f) \<and>
         (\<exists>w s'. edit_form_update s now sel_id f = Inr (w @ [Updated], s') \<and>
            w = overlap_warning
                  (has_overlap s (f_check_in f) (f_check_out f) (f_room f) (Some sel_id))
                  (f_status f) \<and>
            map row_id (bookings s') = map row_id (bookings s) \<and>
            (\<forall>b' \<in> set (bookings s'). row_id b' = sel_id \<longrightarrow>
               guest_name b' = f_guest_name f \<and> room b' = Some (f_room f) \<and>
               status b' = Some (f_status f) \<and> check_in b' = f_check_in f \<and>
               check_out b' = f_check_out f \<and> updated_at b' = now))"
proof
  let ?b = "\<lparr>row_id = next_rowid s, guest_name = f_guest_name f, email = Some (f_email f),
         phone = Some (f_phone f), source = Some (f_source f), room = Some (f_room f),
         status = Some (f_status f), check_in = f_check_in f, check_out = f_check_out f,
         guests = Some (f_guests f), price = Some (f_price f), notes_col = Some (f_notes f),
         external_source = None, external_uid = None, created_at = now, updated_at = now\<rparr>"
  have "new_booking_submit s now f =
      Inr (overlap_warning (has_overlap s (f_check_in f) (f_check_out f) (f_room f) None)
             (f_status f) @ [Saved (next_rowid s)],
           s\<lparr>bookings := bookings s @ [?b], seq := next_rowid s\<rparr>)"
    using assms by (simp add: new_booking_submit_def insert_form Let_def)
  then show "\<exists>w b. new_booking_submit s now f =
              Inr (w @ [Saved (next_rowid s)],
                   s\<lparr>bookings := bookings s @ [b], seq := next_rowid s\<rparr>) \<and>
            w = overlap_warning (has_overlap s (f_check_in f) (f_check_out f) (f_room f) None)
                  (f_status f) \<and>
            row_id b = next_rowid s \<and> guest_name b = f_guest_name f \<and>
            room b = Some (f_room f) \<and> status b = Some (f_status f) \<and>
            check_in b = f_check_in f \<and> check_out b = f_check_out f"
    by (intro exI [of _ "overlap_warning (has_overlap s (f_check_in f) (f_check_out f) (f_room f) None) (f_status f)"]
          exI [of _ ?b]) simp
next
  obtain s' where s': "update_booking s now sel_id (form_data f) = Inr s'"
    and rows: "\<forall>b' \<in> set (bookings s'). row_id b' = sel_id \<longrightarrow>
              guest_name b' = f_guest_name f \<and> room b' = Some (f_room f) \<and>
              status b' = Some (f_status f) \<and> check_in b' = f_check_in f \<and>
              check_out b' = f_check_out f \<and> updated_at b' = now"
    using update_form_rows [of s now sel_id f] by blast
  from s' have "map row_id (bookings s') = map row_id (bookings s)"
    by (simp add: update_booking_keys)
  with rows edit_form_update_valid [OF assms s']
  show "\<exists>w s'. edit_form_update s now sel_id f = Inr (w @ [Updated], s') \<and>
            w = overlap_warning
                  (has_overlap s (f_check_in f) (f_check_out f) (f_room f) (Some sel_id))
                  (f_status f) \<and>
            map row_id (bookings s') = map row_id (bookings s) \<and>
            (\<forall>b' \<in> set (bookings s'). row_id b' = sel_id \<longrightarrow>
               guest_name b' = f_guest_name f \<and> room b' = Some (f_room f) \<and>
               status b' = Some (f_status f) \<and> check_in b' = f_check_in f \<and>
               check_out b' = f_check_out f \<and> updated_at b' = now)"
    by blast
qed

text \<open>
  Bob's stay conflicts with the stay of the store; his booking is saved with the
  warning, and the edit of booking 1 with his form is applied.
\<close>

theorem overlap_is_advisory_witness:
  "f_guest_name form_bob \<noteq> [] \<and> f_check_in form_bob < f_check_out form_bob \<and>
   has_overlap store_confirmed (f_check_in form_bob) (f_check_out form_bob) (f_room form_bob) None =
     (True, [row_confirmed]) \<and>
   (\<exists>b. new_booking_submit store_confirmed 9 form_bob =
          Inr ([Warn_overlap [row_confirmed], Saved 2],
               store_confirmed\<lparr>bookings := bookings store_confirmed @ [b], seq := 2\<rparr>) \<and>
        guest_name b = ''Bob'' \<and> room b = Some ''R1'' \<and> check_in b = 739041) \<and>
   (\<exists>w s'. edit_form_update store_confirmed 9 1 form_bob = Inr (w @ [Updated], s') \<and>
        (\<forall>b' \<in> set (bookings s'). row_id b' = 1 \<longrightarrow> guest_name b' = ''Bob'' \<and> updated_at b' = 9))"
proof -
  have h1: "f_guest_name form_bob \<noteq> []" and h2: "f_check_in form_bob < f_check_out form_bob"
    by (simp_all add: form_bob_def)
  have h5: "f_status form_bob = ''Confermata''" "f_guest_name form_bob = ''Bob''"
    "f_room form_bob = ''R1''" "f_check_in form_bob = 739041" "f_check_out form_bob = 739043"
    by (simp_all add: form_bob_def)
  have h3: "has_overlap store_confirmed 739041 739043 ''R1'' None = (True, [row_confirmed])"
    by (simp add: has_overlap_def sql_where_overlap store_confirmed_def row_confirmed_def)
  have h4: "next_rowid store_confirmed = 2"
    by (simp add: next_rowid_def store_confirmed_def row_confirmed_def)
  from overlap_is_advisory [OF h1 h2, of store_confirmed 9 1]
  have "(\<exists>b. new_booking_submit store_confirmed 9 form_bob =
          Inr ([Warn_overlap [row_confirmed], Saved 2],
               store_confirmed\<lparr>bookings := bookings store_confirmed @ [b], seq := 2\<rparr>) \<and>
        guest_name b = ''Bob'' \<and> room b = Some ''R1'' \<and> check_in b = 739041) \<and>
   (\<exists>w s'. edit_form_update store_confirmed 9 1 form_bob = Inr (w @ [Updated], s') \<and>
        (\<forall>b' \<in> set (bookings s'). row_id b' = 1 \<longrightarrow> guest_name b' = ''Bob'' \<and> updated_at b' = 9))"
    by (auto simp: h3 h4 h5 overlap_warning_def)
  with h1 h2 h3 h5 show ?thesis by simp
qed

section \<open>Queries\<close>

text \<open>
  The recursive \<open>ci_prefix\<close> and \<open>contains_ci\<close> are the prefix and the substring up
  to the case of the ASCII letters.
\<close>

lemma ci_prefix_iff:
  "ci_prefix p t \<longleftrightarrow> (\<exists>mid post. t = mid @ post \<and> map ascii_upper mid = map ascii_upper p)"
proof (induction p t rule: ci_prefix.induct)
  case (1 t)
  then show ?case by simp
next
  case (2 p ps)
  then show ?case by simp
next
  case (3 p ps c cs)
  show ?case
  proof
    assume "ci_prefix (p # ps) (c # cs)"
    with 3 obtain mid post where "cs = mid @ post" "map ascii_upper mid = map ascii_upper ps"
      "ascii_upper p = ascii_upper c" by auto
    then have "c # cs = (c # mid) @ post \<and> map ascii_upper (c # mid) = map ascii_upper (p # ps)"
      by simp
    then show "\<exists>mid post. c # cs = mid @ post \<and> map ascii_upper mid = map ascii_upper (p # ps)"
      by blast
  next
    assume "\<exists>mid post. c # cs = mid @ post \<and> map ascii_upper mid = map ascii_upper (p # ps)"
    then obtain mid post where m: "c # cs = mid @ post" "map ascii_upper mid = map ascii_upper (p # ps)"
      by blast
    then obtain m ms where "mid = m # ms" by (cases mid) auto
    with m 3 show "ci_prefix (p # ps) (c # cs)" by auto
  qed
qed

lemma contains_ci_iff:
  "contains_ci q t \<longleftrightarrow>
     (\<exists>pre mid post. t = pre @ mid @ post \<and> map ascii_upper mid = map ascii_upper q)"
proof (induction t)
  case Nil
  then show ?case by (auto simp: ci_prefix_iff)
next
  case (Cons c cs)
  show ?case
  proof
    assume "contains_ci q (c # cs)"
    then consider "ci_prefix q (c # cs)" | "contains_ci q cs" by auto
    then show "\<exists>pre mid post. c # cs = pre @ mid @ post \<and> map ascii_upper mid = map ascii_upper q"
    proof cases
      case 1
      then obtain mid post where "c # cs = [] @ mid @ post" "map ascii_upper mid = map ascii_upper q"
        by (auto simp: ci_prefix_iff)
      then show ?thesis by blast
    next
      case 2
      with Cons obtain pre mid post where "cs = pre @ mid @ post"
        "map ascii_upper mid = map ascii_upper q" by blast
      then have "c # cs = (c # pre) @ mid @ post" by simp
      with \<open>map ascii_upper mid = map ascii_upper q\<close> show ?thesis by blast
    qed
  next
    assume "\<exists>pre mid post. c # cs = pre @ mid @ post \<and> map ascii_upper mid = map ascii_upper q"
    then obtain pre mid post where m: "c # cs = pre @ mid @ post"
      "map ascii_upper mid = map ascii_upper q" by blast
    show "contains_ci q (c # cs)"
    proof (cases pre)
      case Nil
      with m have "ci_prefix q (c # cs)" by (auto simp: ci_prefix_iff)
      then show ?thesis by simp
    next
      case (Cons a as)
      with m have "cs = as @ mid @ post" by simp
      with m(2) Cons.IH have "contains_ci q cs" by blast
      then show ?thesis by simp
    qed
  qed
qed

lemma like_match_percent [simp]: "like_match ''%'' t"
  by (induction t) auto

lemma like_match_prefix:
  "like_free p \<Longrightarrow> like_match (p @ ''%'') t \<longleftrightarrow> ci_prefix p t"
proof (induction p arbitrary: t)
  case Nil
  then show ?case by (simp del: like_match.simps add: like_match_percent)
next
  case (Cons a p)
  then show ?case by (cases t) (auto simp: like_free_def)
qed

lemma like_match_contains:
  "like_free q \<Longrightarrow> like_match (''%'' @ q @ ''%'') t \<longleftrightarrow> contains_ci q t"
proof (induction t)
  case Nil
  then show ?case using like_match_prefix [of q "[]"] by simp
next
  case (Cons c cs)
  then show ?case using like_match_prefix [of q "c # cs"] by simp
qed

lemma like_match_all: "like_match ''%%%'' t"
  by (induction t) auto

lemma like_match_underscore: "like_match ''%_%'' t \<longleftrightarrow> t \<noteq> []"
proof (cases t)
  case Nil
  then show ?thesis by simp
next
  case (Cons c cs)
  have "like_match ''_%'' (c # cs)" using like_match_percent [of cs] by simp
  with Cons show ?thesis by simp
qed

lemma c_str_no_nul: "CHR 0x00 \<notin> set t \<Longrightarrow> c_str t = t"
  by (auto simp: c_str_def takeWhile_eq_all_conv)

lemma like_plain:
  assumes "plain_search q"
  shows "like_match (c_str (CHR ''%'' # q @ ''%'')) t \<longleftrightarrow> contains_ci q t"
proof -
  from assms have "CHR 0x00 \<notin> set (CHR ''%'' # q @ ''%'')" by (simp add: plain_search_def)
  then have "c_str (CHR ''%'' # q @ ''%'') = CHR ''%'' # q @ ''%''" by (rule c_str_no_nul)
  moreover from assms have "like_match (''%'' @ q @ ''%'') t \<longleftrightarrow> contains_ci q t"
    by (intro like_match_contains) (simp add: plain_search_def)
  ultimately show ?thesis by simp
qed

lemma utf8_len_append: "utf8_len (a @ b) = utf8_len a + utf8_len b"
  by (simp add: utf8_len_def)

lemma utf8_len_replicate:
  "utf8_len (replicate n c) = n * (if (of_char c :: nat) < 128 then 1 else 2)"
  by (simp add: utf8_len_def sum_list_replicate)

text \<open>
  The scan returns the rows on which the clause is true, in the order of the table,
  when the clause raises on no row.
\<close>

lemma select_where_rows:
  assumes "\<forall>b \<in> set bs. \<exists>v. w b = Inr v \<and> (sql_where v \<longleftrightarrow> P b)"
  shows "select_where w bs = Inr (filter P bs)"
  using assms
proof (induction bs)
  case Nil
  then show ?case by simp
next
  case (Cons b bs)
  then obtain v where "w b = Inr v" "sql_where v \<longleftrightarrow> P b" by auto
  moreover from Cons have "select_where w bs = Inr (filter P bs)" by simp
  ultimately show ?case by simp
qed

lemma sql_where_filters:
  "sql_where (filters_where start end' status' room' b) \<longleftrightarrow>
     (\<forall>d. start = Some d \<longrightarrow> check_out b > d) \<and> (\<forall>d. end' = Some d \<longrightarrow> check_in b < d) \<and>
     (\<forall>st. status' = Some st \<and> st \<noteq> [] \<and> st \<noteq> ''Tutte'' \<longrightarrow> status b = Some st) \<and>
     (\<forall>r. room' = Some r \<and> r \<noteq> [] \<and> r \<noteq> ''Tutte'' \<longrightarrow> room b = Some r)"
proof -
  have a: "sql_where (case start of None \<Rightarrow> Some True | Some d \<Rightarrow> sql_gt (Some (check_out b)) (Some d))
      \<longleftrightarrow> (\<forall>d. start = Some d \<longrightarrow> check_out b > d)"
    by (cases start) simp_all
  have b: "sql_where (case end' of None \<Rightarrow> Some True | Some d \<Rightarrow> sql_lt (Some (check_in b)) (Some d))
      \<longleftrightarrow> (\<forall>d. end' = Some d \<longrightarrow> check_in b < d)"
    by (cases end') simp_all
  have c: "sql_where (if truthy status' \<and> status' \<noteq> Some ''Tutte'' then sql_eq (status b) status' else Some True)
      \<longleftrightarrow> (\<forall>st. status' = Some st \<and> st \<noteq> [] \<and> st \<noteq> ''Tutte'' \<longrightarrow> status b = Some st)"
    by (cases status') (auto simp: truthy_def)
  have d: "sql_where (if truthy room' \<and> room' \<noteq> Some ''Tutte'' then sql_eq (room b) room' else Some True)
      \<longleftrightarrow> (\<forall>r. room' = Some r \<and> r \<noteq> [] \<and> r \<noteq> ''Tutte'' \<longrightarrow> room b = Some r)"
    by (cases room') (auto simp: truthy_def)
  show ?thesis
    unfolding filters_where_def sql_where_and a b c d by blast
qed

lemma filters_where_none [simp]: "filters_where None None None None b = Some True"
  by (simp add: filters_where_def truthy_def)

lemma fetch_where_no_search:
  "fetch_where start end' status' room' None b = Inr (filters_where start end' status' room' b)"
  by (simp add: fetch_where_def Let_def)

lemma fetch_where_plain:
  assumes "\<forall>q. search = Some q \<longrightarrow> plain_search q"
  shows "\<exists>v. fetch_where start end' status' room' search b = Inr v \<and>
           (sql_where v \<longleftrightarrow>
              sql_where (filters_where start end' status' room' b) \<and>
              (\<forall>q. search = Some q \<and> q \<noteq> [] \<longrightarrow> text_matches_c_str q b))"
proof (cases search)
  case None
  then show ?thesis by (simp add: fetch_where_def Let_def)
next
  case (Some q)
  with assms have p: "plain_search q" by simp
  then have l: "\<not> utf8_len (CHR ''%'' # q @ ''%'') > like_pattern_limit"
    by (simp add: plain_search_def)
  show ?thesis
  proof (cases "q = [] \<or> \<not> sql_where (filters_where start end' status' room' b)")
    case True
    with Some show ?thesis by (auto simp: fetch_where_def Let_def)
  next
    case False
    with Some l have "fetch_where start end' status' room' search b =
        Inr (sql_or (sql_or (sql_or
             (sql_like (Some (guest_name b)) (CHR ''%'' # q @ ''%''))
             (sql_like (email b) (CHR ''%'' # q @ ''%'')))
             (sql_like (phone b) (CHR ''%'' # q @ ''%'')))
             (sql_like (notes_col b) (CHR ''%'' # q @ ''%'')))"
      by (simp add: fetch_where_def Let_def search_where_def)
    moreover have "sql_where (sql_or (sql_or (sql_or
             (sql_like (Some (guest_name b)) (CHR ''%'' # q @ ''%''))
             (sql_like (email b) (CHR ''%'' # q @ ''%'')))
             (sql_like (phone b) (CHR ''%'' # q @ ''%'')))
             (sql_like (notes_col b) (CHR ''%'' # q @ ''%''))) \<longleftrightarrow> text_matches_c_str q b"
      by (simp add: like_plain [OF p] text_matches_c_str_def)
    ultimately show ?thesis using False Some by simp
  qed
qed

lemma fetch_where_percent:
  "\<exists>v. fetch_where start end' status' room' (Some ''%'') b = Inr v \<and>
        (sql_where v \<longleftrightarrow> sql_where (filters_where start end' status' room' b))"
proof -
  have "like_match (c_str ''%%%'') t" for t
    by (simp add: c_str_def del: like_match.simps add: like_match_all)
  then show ?thesis
    by (auto simp: fetch_where_def Let_def search_where_def utf8_len_def like_pattern_limit_def
        sql_like_def)
qed

lemma fetch_where_underscore:
  "\<exists>v. fetch_where None None None None (Some ''_'') b = Inr v \<and>
        (sql_where v \<longleftrightarrow>
           c_str (guest_name b) \<noteq> [] \<or> (\<exists>e. email b = Some e \<and> c_str e \<noteq> []) \<or>
           (\<exists>p. phone b = Some p \<and> c_str p \<noteq> []) \<or>
           (\<exists>n. notes_col b = Some n \<and> c_str n \<noteq> []))"
proof -
  have "like_match (c_str ''%_%'') t \<longleftrightarrow> t \<noteq> []" for t
    by (simp add: c_str_def del: like_match.simps add: like_match_underscore)
  then show ?thesis
    by (simp add: fetch_where_def Let_def search_where_def utf8_len_def like_pattern_limit_def)
qed

lemma fetch_all_ex:
  "fetch_bookings store_search None None None None None = Inr [row_anna, row_mario]"
  by (simp add: fetch_bookings_def fetch_where_def Let_def store_search_def row_mario_def
      row_anna_def)

text \<open>
  C5, as the code has it. When the search string, if one is given, has no
  metacharacter of \<open>LIKE\<close> and no character U+0000 and its pattern is within the limit
  of 50000 bytes, \<open>fetch_bookings\<close> raises nothing and returns a booking exactly when
  it is in the store and satisfies every filter that is supplied: \<open>check_out > start\<close>;
  \<open>check_in < end\<close>; the status, and the room, equal to the argument when that is a
  non-empty text other than the menu entry \<open>Tutte\<close>; and, for a non-empty search
  string, its occurrence up to the case of the ASCII letters in the guest name, the
  email, the phone or the notes, each read up to its first character U+0000. The
  result is ordered by \<open>check_in\<close>, ascending.
\<close>

theorem fetch_bookings_filters:
  assumes "\<forall>q. search = Some q \<longrightarrow> plain_search q"
  shows "\<exists>rows. fetch_bookings s start end' status' room' search = Inr rows \<and>
           (b \<in> set rows \<longleftrightarrow>
              b \<in> set (bookings s) \<and>
              (\<forall>d. start = Some d \<longrightarrow> check_out b > d) \<and>
              (\<forall>d. end' = Some d \<longrightarrow> check_in b < d) \<and>
              (\<forall>st. status' = Some st \<and> st \<noteq> [] \<and> st \<noteq> ''Tutte'' \<longrightarrow> status b = Some st) \<and>
              (\<forall>r. room' = Some r \<and> r \<noteq> [] \<and> r \<noteq> ''Tutte'' \<longrightarrow> room b = Some r) \<and>
              (\<forall>q. search = Some q \<and> q \<noteq> [] \<longrightarrow> text_matches_c_str q b)) \<and>
           sorted (map check_in rows)"
proof -
  have "select_where (fetch_where start end' status' room' search) (bookings s) =
      Inr (filter (\<lambda>b. sql_where (filters_where start end' status' room' b) \<and>
              (\<forall>q. search = Some q \<and> q \<noteq> [] \<longrightarrow> text_matches_c_str q b)) (bookings s))"
    by (intro select_where_rows ballI fetch_where_plain [OF assms])
  then have "fetch_bookings s start end' status' room' search =
      Inr (sort_key check_in (filter (\<lambda>b. sql_where (filters_where start end' status' room' b) \<and>
              (\<forall>q. search = Some q \<and> q \<noteq> [] \<longrightarrow> text_matches_c_str q b)) (bookings s)))"
    by (simp add: fetch_bookings_def)
  then show ?thesis by (simp add: sql_where_filters)
qed

text \<open>
  The search for \<open>mario\<close> returns the booking whose email is
  \<open>Mario.Rossi@example.com\<close> and not Anna's; the query for the room \<open>R2\<close>, the
  status \<open>In attesa\<close> and the period 2024-06-01 to 2024-06-03 returns Anna's booking
  only.
\<close>

theorem fetch_bookings_filters_witness:
  "plain_search ''mario'' \<and>
   (\<exists>rows. fetch_bookings store_search None None None None (Some ''mario'') = Inr rows \<and>
      row_mario \<in> set rows \<and> row_anna \<notin> set rows) \<and>
   (\<exists>rows. fetch_bookings store_search (Some 739038) (Some 739040) (Some ''In attesa'')
             (Some ''R2'') None = Inr rows \<and>
      row_anna \<in> set rows \<and> row_mario \<notin> set rows)"
proof -
  have f: "plain_search ''mario''"
    by (simp add: plain_search_def like_free_def utf8_len_def like_pattern_limit_def)
  have m: "text_matches_c_str ''mario'' row_mario" "\<not> text_matches_c_str ''mario'' row_anna"
    by (simp_all add: text_matches_c_str_def c_str_def row_mario_def row_anna_def
        ascii_upper_def)
  have s: "row_mario \<in> set (bookings store_search)" "row_anna \<in> set (bookings store_search)"
    by (simp_all add: store_search_def)
  have r: "check_in row_anna = 739038" "check_out row_anna = 739040"
    "status row_anna = Some ''In attesa''" "room row_anna = Some ''R2''"
    "room row_mario = Some ''R1''"
    by (simp_all add: row_anna_def row_mario_def)
  have 1: "\<exists>rows. fetch_bookings store_search None None None None (Some ''mario'') = Inr rows \<and>
      row_mario \<in> set rows \<and> row_anna \<notin> set rows"
    using f m s
      fetch_bookings_filters [where search = "Some ''mario''" and b = row_mario
        and s = store_search and start = None and end' = None and status' = None
        and room' = None]
      fetch_bookings_filters [where search = "Some ''mario''" and b = row_anna
        and s = store_search and start = None and end' = None and status' = None
        and room' = None]
    by auto
  have 2: "\<exists>rows. fetch_bookings store_search (Some 739038) (Some 739040) (Some ''In attesa'')
             (Some ''R2'') None = Inr rows \<and>
      row_anna \<in> set rows \<and> row_mario \<notin> set rows"
    using s r
      fetch_bookings_filters [where search = None and b = row_anna and s = store_search
        and start = "Some 739038" and end' = "Some 739040" and status' = "Some ''In attesa''"
        and room' = "Some ''R2''"]
      fetch_bookings_filters [where search = None and b = row_mario and s = store_search
        and start = "Some 739038" and end' = "Some 739040" and status' = "Some ''In attesa''"
        and room' = "Some ''R2''"]
    by auto
  from f 1 2 show ?thesis by blast
qed

lemma latin1_upper_ex:
  "latin1_upper (CHR 0xE9) = CHR 0xC9" "latin1_upper (CHR 0xC9) = CHR 0xC9"
  by code_simp+

lemmas search_ex_defs = fetch_bookings_def fetch_where_def search_where_def Let_def
  utf8_len_def like_pattern_limit_def sql_like_def c_str_def store_search_def row_mario_def
  row_anna_def ascii_upper_def

text \<open>
  C5 as stated fails in six ways. The search for \<open>_\<close> returns Anna's booking, and no
  underscore occurs in its guest name, email, phone or notes. The status argument
  \<open>Tutte\<close> is no filter: both bookings are returned, and the status of neither is
  \<open>Tutte\<close>. The search for the character U+0000, which no field of the two bookings
  contains, returns both. The search for the letter U+00E9 does not return the
  booking whose guest name starts with its capital U+00C9. The search for 49999
  letters \<open>a\<close> raises \<open>OperationalError\<close> where the claim has the empty result. And
  the search for \<open>bob\<close> does not return the booking whose guest name contains
  \<open>bob\<close> after a character U+0000.
\<close>

theorem fetch_bookings_filters_counterexample:
  "(fetch_bookings store_search None None None None (Some ''_'') = Inr [row_anna, row_mario] \<and>
    \<not> text_matches ''_'' row_anna) \<and>
   (fetch_bookings store_search None None (Some ''Tutte'') None None = Inr [row_anna, row_mario] \<and>
    status row_anna \<noteq> Some ''Tutte'' \<and> status row_mario \<noteq> Some ''Tutte'') \<and>
   (fetch_bookings store_search None None None None (Some [CHR 0x00]) =
      Inr [row_anna, row_mario] \<and>
    like_free [CHR 0x00] \<and>
    \<not> text_matches [CHR 0x00] row_anna \<and> \<not> text_matches [CHR 0x00] row_mario) \<and>
   (fetch_bookings store_accent None None None None (Some [CHR 0xE9]) = Inr [] \<and>
    like_free [CHR 0xE9] \<and>
    row_accent \<in> set (bookings store_accent) \<and>
    map latin1_upper [CHR 0xE9] = map latin1_upper (take 1 (guest_name row_accent))) \<and>
   (fetch_bookings store_search None None None None (Some long_search) =
      Inl (OperationalError ''LIKE or GLOB pattern too complex'') \<and>
    like_free long_search \<and> CHR 0x00 \<notin> set long_search) \<and>
   (fetch_bookings store_nul None None None None (Some ''bob'') = Inr [] \<and>
    plain_search ''bob'' \<and>
    row_nul \<in> set (bookings store_nul) \<and> text_matches ''bob'' row_nul)"
proof -
  have 1: "fetch_bookings store_search None None None None (Some ''_'') =
      Inr [row_anna, row_mario] \<and> \<not> text_matches ''_'' row_anna"
    by (simp add: search_ex_defs text_matches_def)
  have 2: "fetch_bookings store_search None None (Some ''Tutte'') None None =
      Inr [row_anna, row_mario] \<and>
    status row_anna \<noteq> Some ''Tutte'' \<and> status row_mario \<noteq> Some ''Tutte''"
    by (simp add: search_ex_defs filters_where_def truthy_def)
  have 3: "fetch_bookings store_search None None None None (Some [CHR 0x00]) =
      Inr [row_anna, row_mario] \<and>
    like_free [CHR 0x00] \<and>
    \<not> text_matches [CHR 0x00] row_anna \<and> \<not> text_matches [CHR 0x00] row_mario"
    by (simp add: search_ex_defs text_matches_def like_free_def)
  have 4: "fetch_bookings store_accent None None None None (Some [CHR 0xE9]) = Inr [] \<and>
    like_free [CHR 0xE9] \<and>
    row_accent \<in> set (bookings store_accent) \<and>
    map latin1_upper [CHR 0xE9] = map latin1_upper (take 1 (guest_name row_accent))"
    by (simp add: search_ex_defs store_accent_def row_accent_def like_free_def
        latin1_upper_ex sql_where_def)
  have "utf8_len (''%'' @ long_search @ ''%'') = 50001"
    unfolding utf8_len_append long_search_def utf8_len_replicate
    by (simp add: utf8_len_def)
  then have 5: "fetch_bookings store_search None None None None (Some long_search) =
      Inl (OperationalError ''LIKE or GLOB pattern too complex'') \<and>
    like_free long_search \<and> CHR 0x00 \<notin> set long_search"
    by (simp add: fetch_bookings_def fetch_where_def search_where_def Let_def
        like_pattern_limit_def store_search_def like_free_def long_search_def)
  have 6: "fetch_bookings store_nul None None None None (Some ''bob'') = Inr [] \<and>
    plain_search ''bob'' \<and>
    row_nul \<in> set (bookings store_nul) \<and> text_matches ''bob'' row_nul"
    by (simp add: search_ex_defs store_nul_def row_nul_def plain_search_def like_free_def
        text_matches_def)
  from 1 2 3 4 5 6 show ?thesis by blast
qed

text \<open>
  C10. The search string is placed into the pattern as it is, so that \<open>%\<close> and \<open>_\<close>
  act as wildcards. The search for \<open>%\<close> returns what the same query returns without
  a search string, hence every booking when no other filter is given; so it returns
  Anna's booking, none of whose fields contains that character. The search for \<open>_\<close>
  returns exactly the bookings with a character in the guest name, the email, the
  phone or the notes, each read up to its first character U+0000. For a search string
  without these two characters the pattern matches a text exactly when the string
  occurs in it up to the case of the ASCII letters; and when it has no character
  U+0000 either and its pattern is within the limit, the search returns exactly the
  bookings in which it occurs so in one of the four fields, read up to its first
  character U+0000.
\<close>

theorem like_wildcards:
  "fetch_bookings s start end' status' room' (Some ''%'') =
     fetch_bookings s start end' status' room' None \<and>
   fetch_bookings s None None None None (Some ''%'') = Inr (sort_key check_in (bookings s)) \<and>
   (fetch_bookings store_search None None None None (Some ''%'') = Inr [row_anna, row_mario] \<and>
    \<not> text_matches ''%'' row_anna) \<and>
   (\<exists>rows. fetch_bookings s None None None None (Some ''_'') = Inr rows \<and>
      (b \<in> set rows \<longleftrightarrow>
         b \<in> set (bookings s) \<and>
         (c_str (guest_name b) \<noteq> [] \<or> (\<exists>e. email b = Some e \<and> c_str e \<noteq> []) \<or>
          (\<exists>p. phone b = Some p \<and> c_str p \<noteq> []) \<or>
          (\<exists>n. notes_col b = Some n \<and> c_str n \<noteq> [])))) \<and>
   (like_free q \<longrightarrow> (like_match (''%'' @ q @ ''%'') t \<longleftrightarrow> contains_ci q t)) \<and>
   (plain_search q \<and> q \<noteq> [] \<longrightarrow>
      (\<exists>rows. fetch_bookings s None None None None (Some q) = Inr rows \<and>
         (b \<in> set rows \<longleftrightarrow> b \<in> set (bookings s) \<and> text_matches_c_str q b)))"
proof -
  have p: "select_where (fetch_where start end' status' room' (Some ''%'')) (bookings s) =
      Inr (filter (\<lambda>b. sql_where (filters_where start end' status' room' b)) (bookings s))"
    for start end' status' room'
    by (intro select_where_rows ballI fetch_where_percent)
  have n: "select_where (fetch_where start end' status' room' None) (bookings s) =
      Inr (filter (\<lambda>b. sql_where (filters_where start end' status' room' b)) (bookings s))"
    for start end' status' room'
    by (intro select_where_rows ballI) (simp add: fetch_where_no_search)
  have 1: "fetch_bookings s start end' status' room' (Some ''%'') =
     fetch_bookings s start end' status' room' None"
    by (simp add: fetch_bookings_def p n)
  have 2: "fetch_bookings s None None None None (Some ''%'') =
      Inr (sort_key check_in (bookings s))"
    by (simp add: fetch_bookings_def p)
  have 3: "fetch_bookings store_search None None None None (Some ''%'') =
      Inr [row_anna, row_mario] \<and> \<not> text_matches ''%'' row_anna"
    by (simp add: search_ex_defs text_matches_def)
  have "select_where (fetch_where None None None None (Some ''_'')) (bookings s) =
      Inr (filter (\<lambda>b. c_str (guest_name b) \<noteq> [] \<or> (\<exists>e. email b = Some e \<and> c_str e \<noteq> []) \<or>
          (\<exists>p. phone b = Some p \<and> c_str p \<noteq> []) \<or>
          (\<exists>n. notes_col b = Some n \<and> c_str n \<noteq> [])) (bookings s))"
    by (intro select_where_rows ballI fetch_where_underscore)
  then have 4: "\<exists>rows. fetch_bookings s None None None None (Some ''_'') = Inr rows \<and>
      (b \<in> set rows \<longleftrightarrow>
         b \<in> set (bookings s) \<and>
         (c_str (guest_name b) \<noteq> [] \<or> (\<exists>e. email b = Some e \<and> c_str e \<noteq> []) \<or>
          (\<exists>p. phone b = Some p \<and> c_str p \<noteq> []) \<or>
          (\<exists>n. notes_col b = Some n \<and> c_str n \<noteq> [])))"
    by (simp add: fetch_bookings_def)
  have 5: "like_free q \<longrightarrow> (like_match (''%'' @ q @ ''%'') t \<longleftrightarrow> contains_ci q t)"
    using like_match_contains by blast
  have 6: "plain_search q \<and> q \<noteq> [] \<longrightarrow>
      (\<exists>rows. fetch_bookings s None None None None (Some q) = Inr rows \<and>
         (b \<in> set rows \<longleftrightarrow> b \<in> set (bookings s) \<and> text_matches_c_str q b))"
  proof
    assume a: "plain_search q \<and> q \<noteq> []"
    then have "select_where (fetch_where None None None None (Some q)) (bookings s) =
        Inr (filter (\<lambda>b. sql_where (filters_where None None None None b) \<and>
              (\<forall>q'. Some q = Some q' \<and> q' \<noteq> [] \<longrightarrow> text_matches_c_str q' b)) (bookings s))"
      by (intro select_where_rows ballI fetch_where_plain) simp
    with a show "\<exists>rows. fetch_bookings s None None None None (Some q) = Inr rows \<and>
         (b \<in> set rows \<longleftrightarrow> b \<in> set (bookings s) \<and> text_matches_c_str q b)"
      by (simp add: fetch_bookings_def)
  qed
  from 1 2 3 4 5 6 show ?thesis by blast
qed

text \<open>
  The string \<open>mario\<close> has no metacharacter and is found in Rossi's email; the search
  for \<open>_\<close> returns Anna's booking.
\<close>

theorem like_wildcards_witness:
  "like_free ''mario'' \<and> like_match ''%mario%'' ''Mario.Rossi@example.com'' \<and>
   plain_search ''mario'' \<and>
   (\<exists>rows. fetch_bookings store_search None None None None (Some ''mario'') = Inr rows \<and>
      row_mario \<in> set rows)"
proof -
  have f: "like_free ''mario''" "''mario'' \<noteq> []" "plain_search ''mario''"
    by (simp_all add: plain_search_def like_free_def utf8_len_def like_pattern_limit_def)
  have m: "text_matches_c_str ''mario'' row_mario"
    "contains_ci ''mario'' ''Mario.Rossi@example.com''"
    by (simp_all add: text_matches_c_str_def c_str_def row_mario_def ascii_upper_def)
  have s: "row_mario \<in> set (bookings store_search)"
    by (simp add: store_search_def)
  show ?thesis
    using f m s
      like_wildcards [where q = "''mario''" and b = row_mario and s = store_search
        and t = "''Mario.Rossi@example.com''" and start = None and end' = None
        and status' = None and room' = None]
    by auto
qed

section \<open>Occupancy matrix\<close>

lemma map_of_zip_map2:
  "length xs = length ys \<Longrightarrow>
     map_of (zip xs (map (\<lambda>(x, y). g x y) (zip xs ys))) k = map_option (g k) (map_of (zip xs ys) k)"
  by (induction xs ys rule: list_induct2) auto

lemma map_of_zip_const:
  "map_of (zip xs (map (\<lambda>x. c) xs)) k = (if k \<in> set xs then Some c else None)"
  by (induction xs) auto

lemma map_of_zip_None:
  "length xs = length ys \<Longrightarrow> map_of (zip xs ys) k = None \<longleftrightarrow> k \<notin> set xs"
  by (induction xs ys rule: list_induct2) auto

lemma loc_get_None:
  assumes "well_formed mat"
  shows "loc_get mat d r = None \<longleftrightarrow> d \<notin> set (mat_index mat) \<or> r \<notin> set (mat_columns mat)"
proof (cases "map_of (zip (mat_index mat) (mat_cells mat)) d")
  case None
  with assms have "d \<notin> set (mat_index mat)"
    using map_of_zip_None [of "mat_index mat" "mat_cells mat" d] by (simp add: well_formed_def)
  then show ?thesis by (simp add: loc_get_def None)
next
  case (Some cells)
  then have "cells \<in> set (mat_cells mat)"
    by (meson in_set_zipE map_of_SomeD)
  with assms have l: "length (mat_columns mat) = length cells"
    by (simp add: well_formed_def)
  from Some assms have "d \<in> set (mat_index mat)"
    using map_of_zip_None [of "mat_index mat" "mat_cells mat" d] by (auto simp: well_formed_def)
  then show ?thesis
    using map_of_zip_None [OF l, of r] by (simp add: loc_get_def Some)
qed

lemma loc_set_ok:
  assumes "well_formed mat" and "set rng \<subseteq> set (mat_index mat)"
  shows "\<exists>mat'. loc_set mat rng col v = Inr mat' \<and> well_formed mat' \<and>
           mat_index mat' = mat_index mat \<and> mat_columns mat' = mat_columns mat \<and>
           (\<forall>d r. loc_get mat' d r =
              (if d \<in> set rng \<and> r = col \<and> r \<in> set (mat_columns mat) then Some v
               else loc_get mat d r))"
proof -
  let ?g = "\<lambda>d cells. if d \<in> set rng
              then map (\<lambda>(c, x). if c = col then v else x) (zip (mat_columns mat) cells)
              else cells"
  let ?mat' = "mat\<lparr>mat_cells := map (\<lambda>(d, cells). ?g d cells) (zip (mat_index mat) (mat_cells mat))\<rparr>"
  have eq: "loc_set mat rng col v = Inr ?mat'"
    using assms(2) by (auto simp: loc_set_def)
  have len: "length (mat_cells mat) = length (mat_index mat)"
    and rows: "\<And>cells. cells \<in> set (mat_cells mat) \<Longrightarrow> length cells = length (mat_columns mat)"
    using assms(1) by (auto simp: well_formed_def)
  have wf: "well_formed ?mat'"
    using len rows by (auto simp: well_formed_def dest: set_zip_rightD)
  have get: "loc_get ?mat' d r =
        (if d \<in> set rng \<and> r = col \<and> r \<in> set (mat_columns mat) then Some v else loc_get mat d r)"
    for d r
  proof (cases "map_of (zip (mat_index mat) (mat_cells mat)) d")
    case None
    with len have "d \<notin> set (mat_index mat)" by (simp add: map_of_zip_None)
    with assms(2) have "d \<notin> set rng" by blast
    then show ?thesis
      using len by (simp add: loc_get_def map_of_zip_map2 None)
  next
    case (Some cells)
    then have "cells \<in> set (mat_cells mat)" by (meson in_set_zipE map_of_SomeD)
    then have l: "length (mat_columns mat) = length cells" using rows by simp
    show ?thesis
    proof (cases "d \<in> set rng")
      case True
      have "map_of (zip (mat_columns mat)
              (map (\<lambda>(c, x). if c = col then v else x) (zip (mat_columns mat) cells))) r =
            map_option (\<lambda>x. if r = col then v else x) (map_of (zip (mat_columns mat) cells) r)"
        using map_of_zip_map2 [OF l, of "\<lambda>c x. if c = col then v else x" r] by simp
      moreover have "map_of (zip (mat_columns mat) cells) r = None \<longleftrightarrow> r \<notin> set (mat_columns mat)"
        using l by (simp add: map_of_zip_None)
      ultimately show ?thesis
        using True len
        by (cases "map_of (zip (mat_columns mat) cells) r")
           (auto simp: loc_get_def map_of_zip_map2 Some)
    next
      case False
      then show ?thesis using len by (simp add: loc_get_def map_of_zip_map2 Some)
    qed
  qed
  from eq wf get show ?thesis by (intro exI [of _ ?mat']) simp
qed

lemma loc_set_KeyError:
  "\<not> set rng \<subseteq> set (mat_index mat) \<Longrightarrow> loc_set mat rng col v = Inl (KeyError ''not in index'')"
  by (auto simp: loc_set_def)

lemma mark_bookings_ok:
  assumes "well_formed mat"
    and "\<forall>b \<in> set bs. \<forall>r. room b = Some r \<and> r \<in> set (mat_columns mat) \<longrightarrow>
           set (nights b) \<subseteq> set (mat_index mat)"
  shows "\<exists>mat'. mark_bookings bs mat = Inr mat' \<and> well_formed mat' \<and>
           mat_index mat' = mat_index mat \<and> mat_columns mat' = mat_columns mat \<and>
           (\<forall>d r. loc_get mat' d r =
              (if (\<exists>b \<in> set bs. room b = Some r \<and> d \<in> set (nights b)) \<and>
                  r \<in> set (mat_columns mat)
               then Some 1 else loc_get mat d r))"
  using assms
proof (induction bs arbitrary: mat)
  case Nil
  then show ?case by simp
next
  case (Cons b bs)
  show ?case
  proof (cases "\<exists>r. room b = Some r \<and> r \<in> set (mat_columns mat)")
    case False
    then have step: "mark_bookings (b # bs) mat = mark_bookings bs mat"
      by (cases "room b") (auto simp: Let_def)
    from Cons.prems have "\<forall>b \<in> set bs. \<forall>r. room b = Some r \<and> r \<in> set (mat_columns mat) \<longrightarrow>
           set (nights b) \<subseteq> set (mat_index mat)" by simp
    from Cons.IH [OF Cons.prems(1) this] False step show ?thesis by auto
  next
    case True
    then obtain r0 where r0: "room b = Some r0" "r0 \<in> set (mat_columns mat)" by blast
    with Cons.prems have sub: "set (nights b) \<subseteq> set (mat_index mat)" by simp
    from loc_set_ok [OF Cons.prems(1) sub, of r0 1]
    obtain m1 where m1: "loc_set mat (nights b) r0 1 = Inr m1" "well_formed m1"
      "mat_index m1 = mat_index mat" "mat_columns m1 = mat_columns mat"
      "\<And>d r. loc_get m1 d r =
              (if d \<in> set (nights b) \<and> r = r0 \<and> r \<in> set (mat_columns mat) then Some 1
               else loc_get mat d r)"
      by blast
    have step: "mark_bookings (b # bs) mat = mark_bookings bs m1"
      using r0 m1(1) by (simp add: Let_def nights_def)
    from Cons.prems m1 have "\<forall>b \<in> set bs. \<forall>r. room b = Some r \<and> r \<in> set (mat_columns m1) \<longrightarrow>
           set (nights b) \<subseteq> set (mat_index m1)" by simp
    from Cons.IH [OF m1(2) this]
    obtain m2 where m2: "mark_bookings bs m1 = Inr m2" "well_formed m2"
      "mat_index m2 = mat_index m1" "mat_columns m2 = mat_columns m1"
      "\<And>d r. loc_get m2 d r =
              (if (\<exists>b \<in> set bs. room b = Some r \<and> d \<in> set (nights b)) \<and>
                  r \<in> set (mat_columns m1)
               then Some 1 else loc_get m1 d r)"
      by blast
    have "loc_get m2 d r =
              (if (\<exists>b' \<in> set (b # bs). room b' = Some r \<and> d \<in> set (nights b')) \<and>
                  r \<in> set (mat_columns mat)
               then Some 1 else loc_get mat d r)" for d r
      using m2(5) [of d r] m1(5) [of d r] m1(4) r0 by auto
    with step m2 m1 show ?thesis by simp
  qed
qed

lemma mark_bookings_KeyError:
  assumes "well_formed mat"
    and "\<exists>b \<in> set bs. \<exists>r. room b = Some r \<and> r \<in> set (mat_columns mat) \<and>
           \<not> set (nights b) \<subseteq> set (mat_index mat)"
  shows "mark_bookings bs mat = Inl (KeyError ''not in index'')"
  using assms
proof (induction bs arbitrary: mat)
  case Nil
  then show ?case by simp
next
  case (Cons b bs)
  show ?case
  proof (cases "\<exists>r. room b = Some r \<and> r \<in> set (mat_columns mat)")
    case False
    then have step: "mark_bookings (b # bs) mat = mark_bookings bs mat"
      by (cases "room b") (auto simp: Let_def)
    from False Cons.prems(2) have "\<exists>b \<in> set bs. \<exists>r. room b = Some r \<and> r \<in> set (mat_columns mat) \<and>
           \<not> set (nights b) \<subseteq> set (mat_index mat)" by auto
    from Cons.IH [OF Cons.prems(1) this] step show ?thesis by simp
  next
    case True
    then obtain r0 where r0: "room b = Some r0" "r0 \<in> set (mat_columns mat)" by blast
    show ?thesis
    proof (cases "set (nights b) \<subseteq> set (mat_index mat)")
      case False
      then show ?thesis using r0 by (simp add: Let_def nights_def [symmetric] loc_set_KeyError)
    next
      case sub: True
      from loc_set_ok [OF Cons.prems(1) sub, of r0 1]
      obtain m1 where m1: "loc_set mat (nights b) r0 1 = Inr m1" "well_formed m1"
        "mat_index m1 = mat_index mat" "mat_columns m1 = mat_columns mat"
        by blast
      have step: "mark_bookings (b # bs) mat = mark_bookings bs m1"
        using r0 m1(1) by (simp add: Let_def nights_def)
      from sub r0 Cons.prems(2) m1 have "\<exists>b \<in> set bs. \<exists>r. room b = Some r \<and> r \<in> set (mat_columns m1) \<and>
           \<not> set (nights b) \<subseteq> set (mat_index m1)" by auto
      from Cons.IH [OF m1(2) this] step show ?thesis by simp
    qed
  qed
qed

lemma fetch_bookings_period_rows:
  "fetch_bookings s (Some ps) (Some pe) None None None =
     Inr (sort_key check_in (filter (\<lambda>b. check_out b > ps \<and> check_in b < pe) (bookings s)))"
proof -
  have "select_where (fetch_where (Some ps) (Some pe) None None None) (bookings s) =
      Inr (filter (\<lambda>b. check_out b > ps \<and> check_in b < pe) (bookings s))"
    by (intro select_where_rows ballI) (simp add: fetch_where_no_search sql_where_filters)
  then show ?thesis by (simp add: fetch_bookings_def)
qed

lemma fetch_bookings_period:
  "b \<in> set (sort_key check_in (filter (\<lambda>b. check_out b > ps \<and> check_in b < pe) (bookings s))) \<longleftrightarrow>
     b \<in> set (bookings s) \<and> check_out b > ps \<and> check_in b < pe"
  by simp

lemma set_nights: "set (nights b) = {check_in b..check_out b - 1}"
  by (simp add: nights_def date_range_def)

lemma well_formed_zeros:
  "well_formed \<lparr>mat_index = idx, mat_columns = rooms, mat_cells = map (\<lambda>d. map (\<lambda>r. 0) rooms) idx\<rparr>"
  by (simp add: well_formed_def)

lemma loc_get_zeros:
  "loc_get \<lparr>mat_index = idx, mat_columns = rooms, mat_cells = map (\<lambda>d. map (\<lambda>r. 0) rooms) idx\<rparr> d r =
     (if d \<in> set idx \<and> r \<in> set rooms then Some 0 else None)"
  by (simp add: loc_get_def map_of_zip_const)

text \<open>
  What \<open>occupancy_matrix\<close> computes. When every fetched booking of a requested room
  has all its nights inside the period, the result has the days of the period as index
  and the rooms as columns, and the cell of day \<open>d\<close> and room \<open>r\<close> is 1 exactly when
  a booking of that room with \<open>check_in < period_end\<close> covers the night \<open>d\<close>.
  When a fetched booking of a requested room has a night outside the period, the
  function raises \<open>KeyError\<close>.
\<close>

lemma occupancy_matrix_cells:
  assumes "\<forall>b \<in> set (bookings s). \<forall>r. room b = Some r \<and> r \<in> set rooms \<and>
             period_start < check_out b \<and> check_in b < period_end \<and> check_in b < check_out b \<longrightarrow>
             period_start \<le> check_in b \<and> check_out b - 1 \<le> period_end"
  shows "\<exists>mat. occupancy_matrix s period_start period_end rooms = Inr mat \<and>
           mat_index mat = date_range period_start period_end \<and> mat_columns mat = rooms \<and>
           (\<forall>d r. loc_get mat d r =
              (if period_start \<le> d \<and> d \<le> period_end \<and> r \<in> set rooms then
                 Some (if \<exists>b \<in> set (bookings s). room b = Some r \<and> check_in b < period_end \<and>
                            check_in b \<le> d \<and> d \<le> check_out b - 1
                       then 1 else 0)
               else None))"
proof -
  let ?df = "sort_key check_in
      (filter (\<lambda>b. check_out b > period_start \<and> check_in b < period_end) (bookings s))"
  let ?idx = "date_range period_start period_end"
  let ?mat0 = "\<lparr>mat_index = ?idx, mat_columns = rooms, mat_cells = map (\<lambda>d. map (\<lambda>r. 0) rooms) ?idx\<rparr>"
  have inside: "\<forall>b \<in> set ?df. \<forall>r. room b = Some r \<and> r \<in> set (mat_columns ?mat0) \<longrightarrow>
           set (nights b) \<subseteq> set (mat_index ?mat0)"
  proof (intro ballI allI impI)
    fix b r
    assume b: "b \<in> set ?df" and r: "room b = Some r \<and> r \<in> set (mat_columns ?mat0)"
    show "set (nights b) \<subseteq> set (mat_index ?mat0)"
    proof (cases "check_in b < check_out b")
      case True
      with b r assms have "period_start \<le> check_in b \<and> check_out b - 1 \<le> period_end"
        by (auto simp: fetch_bookings_period)
      then show ?thesis by (auto simp: set_nights date_range_def)
    next
      case False
      then show ?thesis by (simp add: set_nights)
    qed
  qed
  from mark_bookings_ok [OF well_formed_zeros inside]
  obtain mat where mat: "mark_bookings ?df ?mat0 = Inr mat" "mat_index mat = ?idx"
    "mat_columns mat = rooms"
    "\<And>d r. loc_get mat d r =
              (if (\<exists>b \<in> set ?df. room b = Some r \<and> d \<in> set (nights b)) \<and> r \<in> set rooms
               then Some 1 else loc_get ?mat0 d r)"
    by auto
  have cells: "loc_get mat d r =
              (if period_start \<le> d \<and> d \<le> period_end \<and> r \<in> set rooms then
                 Some (if \<exists>b \<in> set (bookings s). room b = Some r \<and> check_in b < period_end \<and>
                            check_in b \<le> d \<and> d \<le> check_out b - 1
                       then 1 else 0)
               else None)" for d r
  proof (cases "\<exists>b \<in> set ?df. room b = Some r \<and> d \<in> set (nights b) \<and> r \<in> set rooms")
    case True
    then obtain b where b: "b \<in> set ?df" "room b = Some r" "d \<in> set (nights b)" "r \<in> set rooms"
      by blast
    with inside have "d \<in> set ?idx" by auto
    with b mat(4) [of d r] show ?thesis
      by (auto simp: fetch_bookings_period set_nights date_range_def)
  next
    case False
    then have "loc_get mat d r = loc_get ?mat0 d r"
      using mat(4) [of d r] by auto
    moreover have "\<not> (\<exists>b \<in> set (bookings s). room b = Some r \<and> check_in b < period_end \<and>
                            check_in b \<le> d \<and> d \<le> check_out b - 1)"
      if "period_start \<le> d" "r \<in> set rooms"
      using False that by (auto simp: fetch_bookings_period set_nights)
    ultimately show ?thesis
      by (auto simp: loc_get_zeros date_range_def)
  qed
  have "occupancy_matrix s period_start period_end rooms = mark_bookings ?df ?mat0"
    by (simp add: occupancy_matrix_def fetch_bookings_period_rows Let_def)
  with mat cells show ?thesis by simp
qed

lemma occupancy_matrix_raises:
  assumes "b \<in> set (bookings s)" "room b = Some r" "r \<in> set rooms"
    and "period_start < check_out b" "check_in b < period_end" "check_in b < check_out b"
    and "check_in b < period_start \<or> period_end < check_out b - 1"
  shows "occupancy_matrix s period_start period_end rooms = Inl (KeyError ''not in index'')"
proof -
  let ?df = "sort_key check_in
      (filter (\<lambda>b. check_out b > period_start \<and> check_in b < period_end) (bookings s))"
  let ?idx = "date_range period_start period_end"
  let ?mat0 = "\<lparr>mat_index = ?idx, mat_columns = rooms, mat_cells = map (\<lambda>d. map (\<lambda>r. 0) rooms) ?idx\<rparr>"
  from assms have "b \<in> set ?df" by (simp add: fetch_bookings_period)
  moreover from assms have "\<not> set (nights b) \<subseteq> set (mat_index ?mat0)"
    by (auto simp: set_nights date_range_def)
  ultimately have "\<exists>b \<in> set ?df. \<exists>r. room b = Some r \<and> r \<in> set (mat_columns ?mat0) \<and>
           \<not> set (nights b) \<subseteq> set (mat_index ?mat0)"
    using assms(2,3) by auto
  from mark_bookings_KeyError [OF well_formed_zeros this]
  show ?thesis by (simp add: occupancy_matrix_def fetch_bookings_period_rows Let_def)
qed

lemmas occupancy_defs = occupancy_matrix_def fetch_bookings_period_rows date_range_def
  loc_set_def loc_get_def Let_def

lemma date_range_ex: "[739038..739040] = [739038, 739039, 739040]"
  "[739038..739039] = [739038, 739039]" "[739037..739038] = [739037, 739038]"
  by (simp_all add: upto_rec1)

text \<open>
  Over the period 2024-06-01 to 2024-06-03 and the rooms \<open>R1\<close> and \<open>R2\<close>, the stay
  from 2024-06-01 to 2024-06-03 in \<open>R1\<close> marks the nights of 06-01 and 06-02 in the
  column \<open>R1\<close> and nothing else.
\<close>

lemma occupancy_matrix_two_nights:
  "occupancy_matrix store_two_nights 739038 739040 [''R1'', ''R2''] =
     Inr \<lparr>mat_index = [739038, 739039, 739040], mat_columns = [''R1'', ''R2''],
          mat_cells = [[1, 0], [1, 0], [0, 0]]\<rparr>"
  by (simp add: occupancy_defs store_two_nights_def row_last_night_def date_range_ex)

text \<open>
  The stay from 2024-05-31 to 2024-06-02 is fetched for the same period; its first night
  is not a label of the index, and the assignment raises.
\<close>

lemma occupancy_matrix_straddling:
  "occupancy_matrix store_straddling 739038 739040 [''R1''] = Inl (KeyError ''not in index'')"
  by (simp add: occupancy_defs store_straddling_def row_last_night_def date_range_ex)

text \<open>
  C4 fails on the code at the last day of the period. The stay from 2024-06-03 to
  2024-06-05 in \<open>R1\<close> covers the night of 2024-06-03, the last day of the period
  2024-06-01 to 2024-06-03; \<open>fetch_bookings\<close> keeps only the rows with
  \<open>check_in < period_end\<close>, so the row is not fetched and the cell of that night in
  the column \<open>R1\<close> stays 0.
\<close>

theorem occupancy_matrix_last_night:
  "row_last_night \<in> set (bookings store_last_night) \<and> room row_last_night = Some ''R1'' \<and>
   check_in row_last_night \<le> 739040 \<and> 739040 \<le> check_out row_last_night - 1 \<and>
   occupancy_matrix store_last_night 739038 739040 [''R1''] =
     Inr \<lparr>mat_index = [739038, 739039, 739040], mat_columns = [''R1''],
          mat_cells = [[0], [0], [0]]\<rparr> \<and>
   loc_get \<lparr>mat_index = [739038, 739039, 739040], mat_columns = [''R1''],
            mat_cells = [[0], [0], [0]]\<rparr> 739040 ''R1'' = Some 0"
  by (simp add: occupancy_defs store_last_night_def row_last_night_def date_range_ex)

end
